theory Spec2Isabelle
  imports Main "HOL-Library.Multiset" "HOL-Library.AList"
begin

section \<open>Exceptions\<close>

text \<open>
  Modelled from the spec: the module \<^verbatim>\<open>pikax.exceptions\<close>, imported by both source files,
  is not among the sources. The specification keeps the per-item artwork failure, the
  authentication failures and the request failures apart, and \<^verbatim>\<open>webclient.py\<close> catches
  \<^verbatim>\<open>ReqException\<close> in order to re-raise it as \<^verbatim>\<open>LoginError\<close>; accordingly the classes
  \<^verbatim>\<open>ArtworkError\<close>, \<^verbatim>\<open>ProcessError\<close>, \<^verbatim>\<open>ReqException\<close> and \<^verbatim>\<open>LoginError\<close> are unrelated
  siblings, and an \<^verbatim>\<open>except ArtworkError\<close> clause catches \<^verbatim>\<open>ArtworkError\<close> only. The other
  constructors are the built-in exceptions the sources name or provoke. Every exception
  carries its message; \<open>OtherError\<close> stands for any class the sources do not name.
\<close>

datatype exn =
    is_ArtworkError: ArtworkError string
  | is_ProcessError: ProcessError string
  | is_ReqException: ReqException string
  | is_LoginError: LoginError string
  | is_KeyError: KeyError string
  | is_ValueError: ValueError string
  | is_AttributeError: AttributeError string
  | is_UnpicklingError: UnpicklingError string
  | is_EOFError: EOFError string
  | is_NotImplementedError: NotImplementedError
  | OtherError string

section \<open>models.py: artworks and the id processor\<close>

subsection \<open>Artwork\<close>

text \<open>
  \<^verbatim>\<open>Artwork.__init__\<close> stores the id and calls \<^verbatim>\<open>self.config()\<close>, which sets the
  remaining variables or raises. \<^verbatim>\<open>config\<close> is abstract in the base class (it raises
  \<^verbatim>\<open>NotImplementedError\<close>) and is supplied by the subclass handed to the processor as
  \<^verbatim>\<open>cls\<close>. It asks the remote service, so what it does may differ from one call to the
  next, also for the same id. In the model \<open>config\<close> is a parameter that takes the call
  it is made in besides the id: the processor constructs one artwork per position of its
  id list, and the position names the call. It gives the variables the call sets or the
  exception it raises.
\<close>

record 'v Artwork =
  artwork_id :: int
  variables :: 'v

definition Artwork_config_base :: "nat \<Rightarrow> int \<Rightarrow> exn + 'v" where
  "Artwork_config_base call aid = Inl NotImplementedError"

definition Artwork_init :: "(nat \<Rightarrow> int \<Rightarrow> exn + 'v) \<Rightarrow> nat \<Rightarrow> int \<Rightarrow> exn + 'v Artwork" where
  "Artwork_init config call aid =
     (case config call aid of
        Inl e \<Rightarrow> Inl e
      | Inr v \<Rightarrow> Inr \<lparr>artwork_id = aid, variables = v\<rparr>)"

subsection \<open>BaseIDProcessor.process\<close>

text \<open>
  \<^verbatim>\<open>params.ProcessType\<close> is not among the sources: a process type is \<open>MANGA\<close>,
  \<open>ILLUST\<close> or any other value a caller may pass, and \<^verbatim>\<open>ProcessType.is_valid\<close> is the
  parameter \<open>is_valid\<close>. \<^verbatim>\<open>type_to_function\<close> is the dictionary built by \<^verbatim>\<open>__init__\<close>,
  with exactly the two keys \<open>MANGA\<close> and \<open>ILLUST\<close>; the two methods it holds are
  abstract in the base class and are parameters here. The texts of the messages come from
  the module \<^verbatim>\<open>texts\<close>, which is not among the sources; the key stands for the text.
\<close>

datatype 'a ProcessType = MANGA | ILLUST | OtherType 'a

datatype processor_method = process_mangas | process_illusts

definition type_to_function :: "'a ProcessType \<rightharpoonup> processor_method" where
  "type_to_function = [MANGA \<mapsto> process_mangas, ILLUST \<mapsto> process_illusts]"

definition process ::
  "('a ProcessType \<Rightarrow> bool) \<Rightarrow> (processor_method \<Rightarrow> int list \<Rightarrow> exn + 'r) \<Rightarrow>
   int list \<Rightarrow> 'a ProcessType \<Rightarrow> exn + 'r" where
  "process is_valid call ids process_type =
     (if \<not> is_valid process_type then Inl (ProcessError ''PROCESS_TYPE_ERROR'')
      else (case type_to_function process_type of
              None \<Rightarrow> Inl (KeyError ''process_type'')
            | Some f \<Rightarrow> call f ids))"

subsection \<open>BaseIDProcessor._general_processor\<close>

text \<open>
  The two result lists are shared by the workers of the thread pool; the main thread
  prints one progress line per result it takes from \<^verbatim>\<open>imap_unordered\<close>. The calls of
  \<^verbatim>\<open>util.log\<close> and \<^verbatim>\<open>util.print_done\<close> only write messages and are left out.
\<close>

record 'v processor_state =
  successes :: "'v Artwork list"
  fails :: "int list"
  progress :: "(nat \<times> nat) list"

text \<open>
  \<^verbatim>\<open>process_item\<close>, run for the work item at position \<open>call\<close>: the constructor's
  artwork is appended to \<open>successes\<close>; an \<^verbatim>\<open>ArtworkError\<close> puts the id into \<open>fails\<close>;
  any other exception is not caught and leaves the function (\<open>Some e\<close>).
\<close>

definition process_item ::
  "(nat \<Rightarrow> int \<Rightarrow> exn + 'v Artwork) \<Rightarrow> nat \<Rightarrow> int \<Rightarrow> 'v processor_state \<Rightarrow>
   exn option \<times> 'v processor_state" where
  "process_item cls call itemid st =
     (case cls call itemid of
        Inr a \<Rightarrow> (None, st\<lparr>successes := successes st @ [a]\<rparr>)
      | Inl e \<Rightarrow>
          (if is_ArtworkError e then (None, st\<lparr>fails := fails st @ [itemid]\<rparr>)
           else (Some e, st)))"

text \<open>
  \<^verbatim>\<open>pool.imap_unordered(process_item, item_ids)\<close> runs \<^verbatim>\<open>process_item\<close> once for every
  position of \<open>item_ids\<close> and hands the results over in the order in which the workers
  finish. That order is the pool's choice: it is the parameter \<open>sched\<close>, the positions
  of \<open>item_ids\<close> in completion order, and \<open>imap_unordered\<close> lists the work items in
  that order, each position with its id. A schedule is valid when it names every position
  exactly once. Appending to a Python list is atomic, so the appends of the workers take
  place one after the other, in some order; the function's results do not depend on
  whether that is the order of the hand-over, and the model uses one order for both.
\<close>

definition valid_schedule :: "nat \<Rightarrow> nat list \<Rightarrow> bool" where
  "valid_schedule n sched \<longleftrightarrow> length sched = n \<and> distinct sched \<and> list_all (\<lambda>i. i < n) sched"

definition imap_unordered :: "'a list \<Rightarrow> nat list \<Rightarrow> (nat \<times> 'a) list" where
  "imap_unordered item_ids sched = map (\<lambda>i. (i, item_ids ! i)) sched"

text \<open>
  The \<^verbatim>\<open>for index, item_id in enumerate(...)\<close> loop. Taking a result whose worker raised
  re-raises the exception in the main thread, before the progress line of that result
  is printed; the lines printed so far stay printed.
\<close>

fun consume_results ::
  "(nat \<Rightarrow> int \<Rightarrow> exn + 'v Artwork) \<Rightarrow> nat \<Rightarrow> (nat \<times> int) list \<Rightarrow> nat \<Rightarrow> 'v processor_state \<Rightarrow>
   exn option \<times> 'v processor_state" where
  "consume_results cls total_n [] index st = (None, st)"
| "consume_results cls total_n ((call, item_id) # rest) index st =
     (case process_item cls call item_id st of
        (Some e, st') \<Rightarrow> (Some e, st')
      | (None, st') \<Rightarrow>
          consume_results cls total_n rest (index + 1)
            (st'\<lparr>progress := progress st' @ [(index + 1, total_n)]\<rparr>))"

text \<open>
  The function returns the pair \<open>(successes, fails)\<close> or raises; the progress lines
  it printed are the second component of the model's result.
\<close>

definition general_processor ::
  "(nat \<Rightarrow> int \<Rightarrow> exn + 'v Artwork) \<Rightarrow> int list \<Rightarrow> nat list \<Rightarrow>
   (exn + 'v Artwork list \<times> int list) \<times> (nat \<times> nat) list" where
  "general_processor cls item_ids sched =
     (let total_n = length item_ids;
          st0 = \<lparr>successes = [], fails = [], progress = []\<rparr>
      in case consume_results cls total_n (imap_unordered item_ids sched) 0 st0 of
           (Some e, st) \<Rightarrow> (Inl e, progress st)
         | (None, st) \<Rightarrow> (Inr (successes st, fails st), progress st))"

text \<open>
  The constructors the processor is specified for: in each of the calls for the given
  ids, \<open>cls\<close> returns an artwork or raises \<^verbatim>\<open>ArtworkError\<close>, nothing else. And the
  constructors that treat every occurrence of an id alike: two calls for the same id
  both succeed or both fail.
\<close>

definition raises_only_ArtworkError :: "(nat \<Rightarrow> int \<Rightarrow> exn + 'a) \<Rightarrow> int list \<Rightarrow> bool" where
  "raises_only_ArtworkError cls item_ids \<longleftrightarrow>
     list_all (\<lambda>i. case cls i (item_ids ! i) of Inl e \<Rightarrow> is_ArtworkError e | Inr a \<Rightarrow> True)
       [0 ..< length item_ids]"

definition same_outcome_for_equal_ids :: "(nat \<Rightarrow> int \<Rightarrow> exn + 'a) \<Rightarrow> int list \<Rightarrow> bool" where
  "same_outcome_for_equal_ids cls item_ids \<longleftrightarrow>
     list_all (\<lambda>i. list_all (\<lambda>j. item_ids ! i = item_ids ! j \<longrightarrow>
                                  isl (cls i (item_ids ! i)) = isl (cls j (item_ids ! j)))
                      [0 ..< length item_ids])
       [0 ..< length item_ids]"

subsection \<open>Example inputs\<close>

text \<open>
  A \<^verbatim>\<open>config\<close> that fails for id 2 in every call: with \<^verbatim>\<open>ArtworkError\<close>, and with the
  \<^verbatim>\<open>ReqException\<close> of the source's comment on \<^verbatim>\<open>config\<close>. A \<^verbatim>\<open>config\<close> that fails with
  \<^verbatim>\<open>ArtworkError\<close> in the call at position 1 and in no other, whatever the id. A validity
  check that accepts a third process type, and stand-ins for the two abstract methods.
\<close>

definition example_config :: "nat \<Rightarrow> int \<Rightarrow> exn + string" where
  "example_config call i = (if i = 2 then Inl (ArtworkError ''gone'') else Inr ''art'')"


definition example_config_flaky :: "nat \<Rightarrow> int \<Rightarrow> exn + string" where
  "example_config_flaky call i = (if call = 1 then Inl (ArtworkError ''try again'') else Inr ''art'')"

definition example_is_valid :: "string ProcessType \<Rightarrow> bool" where
  "example_is_valid t \<longleftrightarrow> t \<in> {MANGA, ILLUST, OtherType ''novel''}"

definition example_call :: "processor_method \<Rightarrow> int list \<Rightarrow> exn + nat" where
  "example_call f ids = (case f of process_mangas \<Rightarrow> Inr 0 | process_illusts \<Rightarrow> Inr (length ids))"

section \<open>webclient.py: logging in\<close>

subsection \<open>The state the clients work on\<close>

text \<open>
  The cookie jar of the session is a list of name/value pairs with one entry per name:
  \<^verbatim>\<open>jar[name] = value\<close> is \<open>AList.update\<close>, \<^verbatim>\<open>jar.__delitem__(name)\<close> is
  \<open>AList.delete\<close>, \<^verbatim>\<open>jar.keys()\<close> is \<open>map fst\<close>.
\<close>

type_synonym cookies = "(string \<times> string) list"

text \<open>
  \<^verbatim>\<open>util.req\<close> is not among the sources. A request is a \<^verbatim>\<open>get\<close> of a URL or a
  \<^verbatim>\<open>post\<close> of a URL with its form data and its query parameters. Of a response the
  clients read the text, and the value of
  \<^verbatim>\<open>.json()['body']['user_status']['is_logged_in']\<close>, taken for its truth value; decoding
  or indexing may raise instead.
\<close>

datatype request =
    GET string
  | POST string "(string \<times> string) list" "(string \<times> string) list"

record response =
  body_text :: string
  json_is_logged_in :: "exn + bool"

text \<open>
  The trace is an observation added by the model: it records the entry of each method of
  the clients and every value \<^verbatim>\<open>_check_is_logged\<close> returns, in the order in which they
  happen. Nothing in the model reads it.
\<close>

datatype event =
    Enter_AccountClient_login
  | Enter_get_postkey
  | Enter_CookiesClient_login
  | Enter_local_cookies_login
  | Enter_user_cookies_login
  | Enter_change_to_new_cookies
  | Enter_save_cookies
  | Returned_check_is_logged bool

text \<open>
  The world a client runs in: the cookies of \<^verbatim>\<open>self._session\<close>, the contents of the file
  at \<^verbatim>\<open>settings.COOKIES_FILE\<close> (\<open>None\<close> when there is no file at that path), the lines
  still to be read by \<^verbatim>\<open>input()\<close>, the state of the remote service, and the trace.
  Standard input is a finite list of lines; \<^verbatim>\<open>input()\<close> raises \<^verbatim>\<open>EOFError\<close> at its end.
  Writing and removing the file do not fail in the model, and the calls of \<^verbatim>\<open>util.log\<close>
  and \<^verbatim>\<open>print\<close>, which only write messages, are left out.
\<close>

record 'srv world =
  session_cookies :: cookies
  cookies_file :: "string option"
  stdin :: "string list"
  server :: 'srv
  trace :: "event list"

text \<open>
  The collaborators that are not among the sources are parameters: the cookies of a
  session made by \<^verbatim>\<open>util.new_session\<close>; \<^verbatim>\<open>util.req\<close>, which sends the request with the
  cookies of the session and may change both the cookies and the remote state;
  \<^verbatim>\<open>pickle.load\<close> and \<^verbatim>\<open>pickle.dump\<close> on the contents of the file;
  \<^verbatim>\<open>DefaultAPIClient.__init__\<close>, of which only the exception it may raise matters; and
  the methods \<^verbatim>\<open>strip\<close> and \<^verbatim>\<open>lower\<close> of Python's \<^verbatim>\<open>str\<close>, which work on Unicode text
  by tables of white space and of letter cases that no source file holds. A string of the
  model is the text in an encoding in which the characters \<^verbatim>\<open>;\<close> and \<^verbatim>\<open>=\<close> stand for
  themselves, such as UTF-8.
\<close>

record 'srv services =
  new_session :: cookies
  req :: "request \<Rightarrow> cookies \<Rightarrow> 'srv \<Rightarrow> (exn + response) \<times> cookies \<times> 'srv"
  pickle_load :: "string \<Rightarrow> exn + cookies"
  pickle_dump :: "cookies \<Rightarrow> string"
  DefaultAPIClient_init :: "cookies \<Rightarrow> exn option"
  str_strip :: "string \<Rightarrow> string"
  str_lower :: "string \<Rightarrow> string"

text \<open>\<^verbatim>\<open>str(e)\<close>, as used in the formatted messages.\<close>

fun exn_message :: "exn \<Rightarrow> string" where
  "exn_message (ArtworkError m) = m"
| "exn_message (ProcessError m) = m"
| "exn_message (ReqException m) = m"
| "exn_message (LoginError m) = m"
| "exn_message (KeyError m) = m"
| "exn_message (ValueError m) = m"
| "exn_message (AttributeError m) = m"
| "exn_message (UnpicklingError m) = m"
| "exn_message (EOFError m) = m"
| "exn_message NotImplementedError = []"
| "exn_message (OtherError m) = m"

definition log_event :: "event \<Rightarrow> 'srv world \<Rightarrow> 'srv world" where
  "log_event ev w = w\<lparr>trace := trace w @ [ev]\<rparr>"

subsection \<open>BaseClient\<close>

definition login_check_url :: string where
  "login_check_url = ''https://www.pixiv.net/touch/ajax/user/self/status''"

definition login_url :: string where
  "login_url = ''https://accounts.pixiv.net/api/login?''"

definition post_key_url :: string where
  "post_key_url = ''https://accounts.pixiv.net/login?''"

definition BaseClient_init :: "'srv services \<Rightarrow> 'srv world \<Rightarrow> 'srv world" where
  "BaseClient_init svc w = w\<lparr>session_cookies := new_session svc\<rparr>"

definition util_req ::
  "'srv services \<Rightarrow> request \<Rightarrow> 'srv world \<Rightarrow> (exn + response) \<times> 'srv world" where
  "util_req svc r w =
     (case req svc r (session_cookies w) (server w) of
        (res, c, s) \<Rightarrow> (res, w\<lparr>session_cookies := c, server := s\<rparr>))"

definition check_is_logged :: "'srv services \<Rightarrow> 'srv world \<Rightarrow> (exn + bool) \<times> 'srv world" where
  "check_is_logged svc w =
     (case util_req svc (GET login_check_url) w of
        (Inl e, w1) \<Rightarrow> (Inl e, w1)
      | (Inr status, w1) \<Rightarrow>
          (case json_is_logged_in status of
             Inl e \<Rightarrow> (Inl e, w1)
           | Inr b \<Rightarrow> (Inr b, log_event (Returned_check_is_logged b) w1)))"

definition save_cookies :: "'srv services \<Rightarrow> 'srv world \<Rightarrow> 'srv world" where
  "save_cookies svc w =
     (log_event Enter_save_cookies w)\<lparr>cookies_file := Some (pickle_dump svc (session_cookies w))\<rparr>"

subsection \<open>AccountClient\<close>

text \<open>
  \<^verbatim>\<open>re.search(r'post_key" value="(.*?)"', text)\<close>: the leftmost position at which the
  literal is followed, on the same line, by a closing double quote; the group is the text
  up to the first such quote. \<open>None\<close> when there is no match, where the source's
  \<^verbatim>\<open>.group(1)\<close> raises \<^verbatim>\<open>AttributeError\<close>.
\<close>

definition dquote :: char where
  "dquote = CHR 0x22"

definition newline :: char where
  "newline = CHR 0x0A"

fun lazy_group :: "string \<Rightarrow> string option" where
  "lazy_group [] = None"
| "lazy_group (c # cs) =
     (if c = dquote then Some []
      else if c = newline then None
      else map_option (\<lambda>g. c # g) (lazy_group cs))"

definition post_key_literal :: string where
  "post_key_literal = ''post_key'' @ [dquote] @ '' value='' @ [dquote]"

fun re_search_post_key :: "string \<Rightarrow> string option" where
  "re_search_post_key [] = None"
| "re_search_post_key (c # cs) =
     (if take (length post_key_literal) (c # cs) = post_key_literal then
        (case lazy_group (drop (length post_key_literal) (c # cs)) of
           Some g \<Rightarrow> Some g
         | None \<Rightarrow> re_search_post_key cs)
      else re_search_post_key cs)"

definition get_postkey :: "'srv services \<Rightarrow> 'srv world \<Rightarrow> (exn + string) \<times> 'srv world" where
  "get_postkey svc w =
     (case util_req svc (GET post_key_url) (log_event Enter_get_postkey w) of
        (Inl e, w1) \<Rightarrow>
          (if is_ReqException e \<or> is_AttributeError e
           then (Inl (LoginError (''Failed to find post key: '' @ exn_message e)), w1)
           else (Inl e, w1))
      | (Inr pixiv_login_page, w1) \<Rightarrow>
          (case re_search_post_key (body_text pixiv_login_page) of
             None \<Rightarrow>
               (Inl (LoginError (''Failed to find post key: ''
                                 @ ''NoneType object has no attribute group'')), w1)
           | Some post_key \<Rightarrow> (Inr post_key, w1)))"

definition AccountClient_login ::
  "'srv services \<Rightarrow> string \<Rightarrow> string \<Rightarrow> 'srv world \<Rightarrow> (exn + unit) \<times> 'srv world" where
  "AccountClient_login svc username password w =
     (case get_postkey svc (log_event Enter_AccountClient_login w) of
        (Inl e, w1) \<Rightarrow> (Inl e, w1)
      | (Inr postkey, w1) \<Rightarrow>
          (let data = [(''password'', password), (''pixiv_id'', username), (''post_key'', postkey)];
               login_params = [(''lang'', ''en'')]
           in case util_req svc (POST login_url data login_params) w1 of
                (Inl e, w2) \<Rightarrow>
                  (if is_ReqException e
                   then (Inl (LoginError (''Failed to send login request: '' @ exn_message e)), w2)
                   else (Inl e, w2))
              | (Inr r, w2) \<Rightarrow>
                  (case check_is_logged svc w2 of
                     (Inl e, w3) \<Rightarrow> (Inl e, w3)
                   | (Inr True, w3) \<Rightarrow> (Inr (), save_cookies svc w3)
                   | (Inr False, w3) \<Rightarrow> (Inl (LoginError ''Login Request is not accepted''), w3))))"

subsection \<open>CookiesClient\<close>

text \<open>
  \<^verbatim>\<open>s.split(sep)\<close> and \<^verbatim>\<open>s.split(sep, 1)\<close> for a separator of one character.
\<close>

fun py_split :: "char \<Rightarrow> string \<Rightarrow> string list" where
  "py_split sep [] = [[]]"
| "py_split sep (c # cs) =
     (if c = sep then [] # py_split sep cs
      else (case py_split sep cs of
              [] \<Rightarrow> [[c]]
            | p # ps \<Rightarrow> (c # p) # ps))"

fun py_split1 :: "char \<Rightarrow> string \<Rightarrow> string list" where
  "py_split1 sep [] = [[]]"
| "py_split1 sep (c # cs) =
     (if c = sep then [[], cs]
      else (case py_split1 sep cs of
              [] \<Rightarrow> [[c]]
            | p # ps \<Rightarrow> (c # p) # ps))"

text \<open>
  \<^verbatim>\<open>_change_to_new_cookies\<close>: the first loop deletes every cookie of the session, the
  second sets the new ones one by one. \<^verbatim>\<open>name, value = new_cookie.split('=', 1)\<close> raises
  \<^verbatim>\<open>ValueError\<close> when the entry has no \<^verbatim>\<open>=\<close>; the cookies set before that entry stay
  in the session.
\<close>

fun add_new_cookies :: "string list \<Rightarrow> cookies \<Rightarrow> exn option \<times> cookies" where
  "add_new_cookies [] jar = (None, jar)"
| "add_new_cookies (new_cookie # rest) jar =
     (case py_split1 CHR ''='' new_cookie of
        [name, val] \<Rightarrow> add_new_cookies rest (AList.update name val jar)
      | _ \<Rightarrow> (Some (ValueError ''not enough values to unpack (expected 2, got 1)''), jar))"

definition remove_old_cookies :: "cookies \<Rightarrow> cookies" where
  "remove_old_cookies jar = fold (\<lambda>old_cookie j. AList.delete old_cookie j) (map fst jar) jar"

definition change_to_new_cookies :: "string \<Rightarrow> 'srv world \<Rightarrow> (exn + unit) \<times> 'srv world" where
  "change_to_new_cookies user_cookies w =
     (let w1 = log_event Enter_change_to_new_cookies w;
          w2 = w1\<lparr>session_cookies := remove_old_cookies (session_cookies w1)\<rparr>
      in case add_new_cookies (py_split CHR '';'' user_cookies) (session_cookies w2) of
           (None, jar) \<Rightarrow> (Inr (), w2\<lparr>session_cookies := jar\<rparr>)
         | (Some e, jar) \<Rightarrow>
             (if is_ValueError e
              then (Inl (LoginError (''Cookies given is invalid, please try again | '' @ exn_message e)),
                    w2\<lparr>session_cookies := jar\<rparr>)
              else (Inl e, w2\<lparr>session_cookies := jar\<rparr>)))"

text \<open>
  \<^verbatim>\<open>_local_cookies_login\<close>. \<open>local_cookies_try\<close> is the body of the \<^verbatim>\<open>try\<close>
  statement: it returns \<open>True\<close> where the source returns from the method and
  \<open>False\<close> where it falls through to the final \<^verbatim>\<open>raise\<close>. The handler catches
  \<^verbatim>\<open>pickle.UnpicklingError\<close> and nothing else.
\<close>

definition local_cookies_try ::
  "'srv services \<Rightarrow> string \<Rightarrow> 'srv world \<Rightarrow> (exn + bool) \<times> 'srv world" where
  "local_cookies_try svc file_data w =
     (case pickle_load svc file_data of
        Inl e \<Rightarrow> (Inl e, w)
      | Inr local_cookies \<Rightarrow>
          (case check_is_logged svc (w\<lparr>session_cookies := local_cookies\<rparr>) of
             (Inl e, w1) \<Rightarrow> (Inl e, w1)
           | (Inr True, w1) \<Rightarrow> (Inr True, w1)
           | (Inr False, w1) \<Rightarrow> (Inr False, w1\<lparr>cookies_file := None\<rparr>)))"

definition local_cookies_login :: "'srv services \<Rightarrow> 'srv world \<Rightarrow> (exn + unit) \<times> 'srv world" where
  "local_cookies_login svc w0 =
     (let w = log_event Enter_local_cookies_login w0 in
      case cookies_file w of
        None \<Rightarrow> (Inl (LoginError ''Local Cookies file not found''), w)
      | Some file_data \<Rightarrow>
          (case local_cookies_try svc file_data w of
             (Inr True, w1) \<Rightarrow> (Inr (), w1)
           | (Inr False, w1) \<Rightarrow> (Inl (LoginError ''Login with cookies failed''), w1)
           | (Inl e, w1) \<Rightarrow>
               (if is_UnpicklingError e
                then (Inl (LoginError ''Login with cookies failed''), w1\<lparr>cookies_file := None\<rparr>)
                else (Inl e, w1))))"

text \<open>
  \<^verbatim>\<open>_user_cookies_login\<close>. Leaving
  the loop with \<^verbatim>\<open>break\<close> reaches the \<^verbatim>\<open>raise\<close> after the loop; \<^verbatim>\<open>continue\<close> and the
  end of the body are the recursive calls. Every round reads at least one line, so the
  loop ends on every finite input.
\<close>

definition input_line :: "'srv world \<Rightarrow> (exn + string) \<times> 'srv world" where
  "input_line w =
     (case stdin w of
        [] \<Rightarrow> (Inl (EOFError ''EOF when reading a line''), w)
      | line # rest \<Rightarrow> (Inr line, w\<lparr>stdin := rest\<rparr>))"

function user_cookies_loop :: "'srv services \<Rightarrow> 'srv world \<Rightarrow> (exn + unit) \<times> 'srv world" where
  "user_cookies_loop svc w =
     (case input_line w of
        (Inl e, w1) \<Rightarrow> (Inl e, w1)
      | (Inr line, w1) \<Rightarrow>
          (let answer = str_lower svc (str_strip svc line) in
           if answer \<in> set [''n'', ''no''] then
             (Inl (LoginError ''Failed login with user cookies''), w1)
           else if answer \<notin> set [''y'', ''yes''] then user_cookies_loop svc w1
           else
             (case input_line w1 of
                (Inl e, w2) \<Rightarrow> (Inl e, w2)
              | (Inr cookies, w2) \<Rightarrow>
                  (case change_to_new_cookies cookies w2 of
                     (Inl e, w3) \<Rightarrow>
                       (if is_LoginError e then user_cookies_loop svc w3 else (Inl e, w3))
                   | (Inr u, w3) \<Rightarrow>
                       (case check_is_logged svc w3 of
                          (Inl e, w4) \<Rightarrow>
                            (if is_LoginError e then user_cookies_loop svc w4 else (Inl e, w4))
                        | (Inr True, w4) \<Rightarrow> (Inr (), save_cookies svc w4)
                        | (Inr False, w4) \<Rightarrow> user_cookies_loop svc w4)))))"
  by pat_completeness auto
termination
proof -
  have stdin_check_is_logged: "stdin (snd (check_is_logged svc w)) = stdin w"
    for svc :: "'srv services" and w
    by (auto simp add: check_is_logged_def util_req_def log_event_def split: prod.splits sum.splits)
  have stdin_change_to_new_cookies: "stdin (snd (change_to_new_cookies c w)) = stdin w"
    for c and w :: "'srv world"
    by (simp add: change_to_new_cookies_def log_event_def Let_def split: prod.splits option.splits)
  show ?thesis
  proof (relation "measure (\<lambda>(svc, w). length (stdin w))")
    show "wf (measure (\<lambda>(svc, w). length (stdin w)))" by simp
  next
    fix svc :: "'srv services" and w x1 w1 line answer
    assume "(x1, w1) = input_line w" "x1 = Inr line"
    then show "((svc, w1), (svc, w)) \<in> measure (\<lambda>(svc, w). length (stdin w))"
      by (auto simp: input_line_def split: list.splits)
  next
    fix svc :: "'srv services" and w x1 w1 line answer x2 w2 cookies x3 w3 e
    assume "(x1, w1) = input_line w" "x1 = Inr line" "(x2, w2) = input_line w1" "x2 = Inr cookies"
      "(x3, w3) = change_to_new_cookies cookies w2"
    then show "((svc, w3), (svc, w)) \<in> measure (\<lambda>(svc, w). length (stdin w))"
      using stdin_change_to_new_cookies [of cookies w2]
      by (auto simp: input_line_def split: list.splits dest!: arg_cong [where f = snd])
  next
    fix svc :: "'srv services" and w x1 w1 line answer x2 w2 cookies x3 w3 u x4 w4 e
    assume "(x1, w1) = input_line w" "x1 = Inr line" "(x2, w2) = input_line w1" "x2 = Inr cookies"
      "(x3, w3) = change_to_new_cookies cookies w2" "(x4, w4) = check_is_logged svc w3"
    then show "((svc, w4), (svc, w)) \<in> measure (\<lambda>(svc, w). length (stdin w))"
      using stdin_change_to_new_cookies [of cookies w2] stdin_check_is_logged [of svc w3]
      by (auto simp: input_line_def split: list.splits dest!: arg_cong [where f = snd])
  next
    fix svc :: "'srv services" and w x1 w1 line answer x2 w2 cookies x3 w3 u x4 w4 b
    assume "(x1, w1) = input_line w" "x1 = Inr line" "(x2, w2) = input_line w1" "x2 = Inr cookies"
      "(x3, w3) = change_to_new_cookies cookies w2" "(x4, w4) = check_is_logged svc w3"
    then show "((svc, w4), (svc, w)) \<in> measure (\<lambda>(svc, w). length (stdin w))"
      using stdin_change_to_new_cookies [of cookies w2] stdin_check_is_logged [of svc w3]
      by (auto simp: input_line_def split: list.splits dest!: arg_cong [where f = snd])
  qed
qed

definition user_cookies_login :: "'srv services \<Rightarrow> 'srv world \<Rightarrow> (exn + unit) \<times> 'srv world" where
  "user_cookies_login svc w = user_cookies_loop svc (log_event Enter_user_cookies_login w)"

definition CookiesClient_login :: "'srv services \<Rightarrow> 'srv world \<Rightarrow> (exn + unit) \<times> 'srv world" where
  "CookiesClient_login svc w =
     (case local_cookies_login svc (log_event Enter_CookiesClient_login w) of
        (Inr u, w1) \<Rightarrow> (Inr u, w1)
      | (Inl e, w1) \<Rightarrow>
          (if is_LoginError e then
             (case user_cookies_login svc w1 of
                (Inr u, w2) \<Rightarrow> (Inr u, w2)
              | (Inl e2, w2) \<Rightarrow>
                  (if is_LoginError e2 then (Inl (LoginError ''Cookies Login failed''), w2)
                   else (Inl e2, w2)))
           else (Inl e, w1)))"

subsection \<open>WebAPIClient\<close>

text \<open>
  \<open>WebAPIClient_login\<close> is the \<^verbatim>\<open>try\<close> statement of \<^verbatim>\<open>WebAPIClient.__init__\<close>;
  \<open>WebAPIClient_init\<close> is the whole method.
\<close>

definition WebAPIClient_login ::
  "'srv services \<Rightarrow> string \<Rightarrow> string \<Rightarrow> 'srv world \<Rightarrow> (exn + unit) \<times> 'srv world" where
  "WebAPIClient_login svc username password w =
     (case AccountClient_login svc username password w of
        (Inr u, w1) \<Rightarrow> (Inr u, w1)
      | (Inl e, w1) \<Rightarrow>
          (if is_LoginError e then
             (case CookiesClient_login svc w1 of
                (Inr u, w2) \<Rightarrow> (Inr u, w2)
              | (Inl e2, w2) \<Rightarrow>
                  (if is_LoginError e2 then (Inl (LoginError ''Web client login failed''), w2)
                   else (Inl e2, w2)))
           else (Inl e, w1)))"

definition WebAPIClient_init ::
  "'srv services \<Rightarrow> string \<Rightarrow> string \<Rightarrow> 'srv world \<Rightarrow> (exn + unit) \<times> 'srv world" where
  "WebAPIClient_init svc username password w =
     (case WebAPIClient_login svc username password (BaseClient_init svc w) of
        (Inl e, w1) \<Rightarrow> (Inl e, w1)
      | (Inr u, w1) \<Rightarrow>
          (case DefaultAPIClient_init svc (session_cookies w1) of
             Some e \<Rightarrow> (Inl e, w1)
           | None \<Rightarrow> (Inr (), w1)))"

subsection \<open>Observations on the trace\<close>

text \<open>
  The events a run adds to the trace; the property that every entry of
  \<^verbatim>\<open>_save_cookies\<close> comes directly after \<^verbatim>\<open>_check_is_logged\<close> has returned true
  (\<open>prev\<close> is the event before the list); and the strategies a run enters, in order.
\<close>

definition new_events :: "'srv world \<Rightarrow> 'srv world \<Rightarrow> event list" where
  "new_events w w' = drop (length (trace w)) (trace w')"

fun saves_verified :: "event option \<Rightarrow> event list \<Rightarrow> bool" where
  "saves_verified prev [] = True"
| "saves_verified prev (ev # evs) =
     ((if ev = Enter_save_cookies then prev = Some (Returned_check_is_logged True) else True)
      \<and> saves_verified (Some ev) evs)"

definition is_strategy_entry :: "event \<Rightarrow> bool" where
  "is_strategy_entry ev \<longleftrightarrow>
     ev \<in> set [Enter_AccountClient_login, Enter_local_cookies_login, Enter_user_cookies_login]"

definition strategies_tried :: "event list \<Rightarrow> event list" where
  "strategies_tried evs = filter is_strategy_entry evs"

subsection \<open>The authenticator as the specification words it\<close>

text \<open>
  The specification describes an authenticator that is handed an ordered list of
  strategies, tries each in that order, stops at the first success and fails with
  \<open>AllFailed\<close> when none succeeds. \<open>spec_Authenticator_login\<close> follows these words, with
  the three strategies of the source as the variants; it is what the source's fixed
  cascade is compared with.
\<close>

datatype AuthStrategy =
    DirectCredentials string string
  | StoredSession
  | InteractiveSession

definition attempt ::
  "'srv services \<Rightarrow> AuthStrategy \<Rightarrow> 'srv world \<Rightarrow> (exn + unit) \<times> 'srv world" where
  "attempt svc strategy w =
     (case strategy of
        DirectCredentials username password \<Rightarrow> AccountClient_login svc username password w
      | StoredSession \<Rightarrow> local_cookies_login svc w
      | InteractiveSession \<Rightarrow> user_cookies_login svc w)"

fun spec_Authenticator_login ::
  "'srv services \<Rightarrow> AuthStrategy list \<Rightarrow> 'srv world \<Rightarrow> (exn + unit) \<times> 'srv world" where
  "spec_Authenticator_login svc [] w = (Inl (LoginError ''AllFailed''), w)"
| "spec_Authenticator_login svc (strategy # rest) w =
     (case attempt svc strategy w of
        (Inr u, w1) \<Rightarrow> (Inr u, w1)
      | (Inl e, w1) \<Rightarrow> spec_Authenticator_login svc rest w1)"

subsection \<open>Example service and worlds\<close>

text \<open>
  A remote service that accepts the password \<open>secret\<close> and the session id \<open>good\<close>,
  a serialisation with two well-formed files, and a world with one old cookie. The two
  string methods of the example are those of Python on ASCII text, which is all the
  example runs enter.
\<close>

definition ascii_isspace :: "char \<Rightarrow> bool" where
  "ascii_isspace c \<longleftrightarrow> c \<in> set [CHR 0x09, CHR 0x0A, CHR 0x0B, CHR 0x0C, CHR 0x0D,
                              CHR 0x1C, CHR 0x1D, CHR 0x1E, CHR 0x1F, CHR 0x20]"

definition ascii_strip :: "string \<Rightarrow> string" where
  "ascii_strip s = rev (dropWhile ascii_isspace (rev (dropWhile ascii_isspace s)))"

definition ascii_lower_char :: "char \<Rightarrow> char" where
  "ascii_lower_char c =
     (case map_of (zip ''ABCDEFGHIJKLMNOPQRSTUVWXYZ'' ''abcdefghijklmnopqrstuvwxyz'') c of
        Some l \<Rightarrow> l
      | None \<Rightarrow> c)"

definition ascii_lower :: "string \<Rightarrow> string" where
  "ascii_lower s = map ascii_lower_char s"

definition example_page :: string where
  "example_page = ''<input name='' @ [dquote] @ ''post_key'' @ [dquote] @ '' value=''
                   @ [dquote] @ ''k1'' @ [dquote] @ ''>''"

definition example_req :: "request \<Rightarrow> cookies \<Rightarrow> unit \<Rightarrow> (exn + response) \<times> cookies \<times> unit" where
  "example_req r jar s =
     (case r of
        GET url \<Rightarrow>
          (if url = post_key_url
           then (Inr \<lparr>body_text = example_page, json_is_logged_in = Inl (ValueError ''not json'')\<rparr>, jar, s)
           else (Inr \<lparr>body_text = [],
                      json_is_logged_in = Inr (map_of jar ''PHPSESSID'' = Some ''good'')\<rparr>, jar, s))
      | POST url data ps \<Rightarrow>
          (Inr \<lparr>body_text = [], json_is_logged_in = Inl (ValueError ''not json'')\<rparr>,
           (if map_of data ''password'' = Some ''secret''
            then AList.update ''PHPSESSID'' ''good'' jar else jar), s))"

definition example_pickle_load :: "string \<Rightarrow> exn + cookies" where
  "example_pickle_load file_data =
     (if file_data = [] then Inl (EOFError ''Ran out of input'')
      else if file_data = ''GOOD'' then Inr [(''PHPSESSID'', ''good'')]
      else if file_data = ''STALE'' then Inr [(''PHPSESSID'', ''stale'')]
      else Inl (UnpicklingError ''invalid load key''))"

definition example_pickle_dump :: "cookies \<Rightarrow> string" where
  "example_pickle_dump jar = (if map_of jar ''PHPSESSID'' = Some ''good'' then ''GOOD'' else ''STALE'')"

definition example_services :: "unit services" where
  "example_services =
     \<lparr>new_session = [], req = example_req, pickle_load = example_pickle_load,
      pickle_dump = example_pickle_dump, DefaultAPIClient_init = (\<lambda>jar. None),
      str_strip = ascii_strip, str_lower = ascii_lower\<rparr>"

text \<open>
  The same service with the status request failing, and with the login request failing.
\<close>

definition example_req_status_down ::
  "request \<Rightarrow> cookies \<Rightarrow> unit \<Rightarrow> (exn + response) \<times> cookies \<times> unit" where
  "example_req_status_down r jar s =
     (if r = GET login_check_url then (Inl (ReqException ''connection failed''), jar, s)
      else example_req r jar s)"

definition example_req_post_down ::
  "request \<Rightarrow> cookies \<Rightarrow> unit \<Rightarrow> (exn + response) \<times> cookies \<times> unit" where
  "example_req_post_down r jar s =
     (case r of
        POST url data ps \<Rightarrow> (Inl (ReqException ''connection failed''), jar, s)
      | GET url \<Rightarrow> example_req r jar s)"

definition example_services_status_down :: "unit services" where
  "example_services_status_down = example_services\<lparr>req := example_req_status_down\<rparr>"

definition example_services_post_down :: "unit services" where
  "example_services_post_down = example_services\<lparr>req := example_req_post_down\<rparr>"

definition example_world :: "string option \<Rightarrow> string list \<Rightarrow> unit world" where
  "example_world file_data lines =
     \<lparr>session_cookies = [(''old'', ''x'')], cookies_file = file_data, stdin = lines,
      server = (), trace = []\<rparr>"

subsection \<open>Predicates used in the statements\<close>

text \<open>
  An entry of the cookie string is well formed when it has a \<^verbatim>\<open>=\<close>. A result is a
  raised \<^verbatim>\<open>LoginError\<close>. \<open>run_ok\<close> collects what holds of every run from \<open>w\<close> to
  \<open>w'\<close> with result \<open>r\<close>: the trace grows at its end; every entry of
  \<^verbatim>\<open>_save_cookies\<close> follows a check that returned true; a failed run has not saved and a
  successful one has seen a check return true; and without a save the cookies file is as
  before or removed. \<open>inner_events\<close> are the events of the interactive loop.
\<close>

definition well_formed_entry :: "string \<Rightarrow> bool" where
  "well_formed_entry new_cookie \<longleftrightarrow> CHR ''='' \<in> set new_cookie"

definition raised_LoginError :: "exn + unit \<Rightarrow> bool" where
  "raised_LoginError r = (case r of Inl e \<Rightarrow> is_LoginError e | Inr u \<Rightarrow> False)"

definition run_ok :: "'srv world \<Rightarrow> exn + unit \<Rightarrow> 'srv world \<Rightarrow> bool" where
  "run_ok w r w' \<longleftrightarrow>
     (let evs = new_events w w' in
        trace w' = trace w @ evs
        \<and> saves_verified None evs
        \<and> (if isl r then Enter_save_cookies \<notin> set evs else Returned_check_is_logged True \<in> set evs)
        \<and> (if Enter_save_cookies \<in> set evs then True
           else cookies_file w' = cookies_file w \<or> cookies_file w' = None))"

definition inner_events :: "event set" where
  "inner_events = {Enter_change_to_new_cookies, Enter_save_cookies,
                   Returned_check_is_logged True, Returned_check_is_logged False}"

section \<open>Properties of models.py\<close>

subsection \<open>Schedules and the loop\<close>

lemma valid_schedule_set:
  assumes "valid_schedule n sched"
  shows "set sched = {0..<n}"
proof -
  from assms have len: "length sched = n" and d: "distinct sched" and b: "set sched \<subseteq> {0..<n}"
    by (auto simp: valid_schedule_def list_all_iff)
  have "card (set sched) = n" using len d by (simp add: distinct_card)
  with b show ?thesis
    by (simp add: card_subset_eq)
qed

lemma valid_schedule_mset:
  assumes "valid_schedule n sched"
  shows "mset sched = mset [0..<n]"
proof -
  from assms have d: "distinct sched"
    by (simp add: valid_schedule_def)
  have "set sched = set [0..<n]"
    using valid_schedule_set [OF assms] by simp
  moreover have "distinct [0..<n]" by simp
  ultimately show ?thesis
    using d set_eq_iff_mset_eq_distinct [of sched "[0..<n]"] by blast
qed

lemma mset_imap_unordered:
  assumes "valid_schedule (length item_ids) sched"
  shows "mset (map snd (imap_unordered item_ids sched)) = mset item_ids"
proof -
  have "mset (map snd (imap_unordered item_ids sched)) = image_mset (\<lambda>i. item_ids ! i) (mset sched)"
    by (simp add: imap_unordered_def comp_def)
  also have "\<dots> = image_mset (\<lambda>i. item_ids ! i) (mset [0..<length item_ids])"
    using assms by (simp add: valid_schedule_mset)
  also have "\<dots> = mset (map (\<lambda>i. item_ids ! i) [0..<length item_ids])"
    by simp
  also have "\<dots> = mset item_ids"
    by (simp add: map_nth)
  finally show ?thesis .
qed

lemma in_imap_unordered:
  assumes "valid_schedule (length item_ids) sched"
  shows "(c, i) \<in> set (imap_unordered item_ids sched) \<longleftrightarrow> c < length item_ids \<and> i = item_ids ! c"
  using valid_schedule_set [OF assms] by (auto simp: imap_unordered_def)

lemma length_imap_unordered: "length (imap_unordered item_ids sched) = length sched"
  by (simp add: imap_unordered_def)

lemma mset_map_filter_split:
  assumes "\<And>x. Q x = (\<not> P x)"
  shows "mset (map f (filter Q xs)) + mset (map f (filter P xs)) = mset (map f xs)"
  by (induction xs) (auto simp: assms)

lemma consume_results_conforming:
  assumes "\<forall>(c, i) \<in> set items. (case cls c i of Inl e \<Rightarrow> is_ArtworkError e | Inr a \<Rightarrow> True)"
  shows "consume_results cls n items k st =
           (None, st\<lparr>successes := successes st
                        @ map (\<lambda>(c, i). projr (cls c i)) (filter (\<lambda>(c, i). \<not> isl (cls c i)) items),
                      fails := fails st @ map snd (filter (\<lambda>(c, i). isl (cls c i)) items),
                      progress := progress st @ map (\<lambda>j. (k + j + 1, n)) [0 ..< length items]\<rparr>)"
  using assms
proof (induction items arbitrary: k st)
  case Nil
  then show ?case by simp
next
  case (Cons x items)
  obtain c i where x: "x = (c, i)" by (cases x)
  from Cons.prems have tl: "\<forall>(c, i) \<in> set items. (case cls c i of Inl e \<Rightarrow> is_ArtworkError e | Inr a \<Rightarrow> True)"
    by simp
  show ?case
  proof (cases "cls c i")
    case (Inl e)
    with Cons.prems x have "is_ArtworkError e"
      by simp
    with Inl x show ?thesis
      by (simp add: process_item_def Cons.IH [OF tl] map_upt_Suc del: upt_Suc)
  next
    case (Inr a)
    with x show ?thesis
      by (simp add: process_item_def Cons.IH [OF tl] map_upt_Suc del: upt_Suc)
  qed
qed

lemma raises_only_ArtworkError_init:
  "raises_only_ArtworkError (Artwork_init config) items = raises_only_ArtworkError config items"
  by (simp add: raises_only_ArtworkError_def Artwork_init_def list_all_iff split: sum.splits)

lemma isl_Artwork_init: "isl (Artwork_init config c i) = isl (config c i)"
  by (simp add: Artwork_init_def split: sum.splits)

lemma artwork_id_Artwork_init:
  "\<not> isl (config c i) \<Longrightarrow> artwork_id (projr (Artwork_init config c i)) = i"
  by (cases "config c i") (simp_all add: Artwork_init_def)

lemma ids_of_constructed:
  "map artwork_id (map (\<lambda>(c, i). projr (Artwork_init config c i))
                       (filter (\<lambda>(c, i). \<not> isl (Artwork_init config c i)) items))
     = map snd (filter (\<lambda>(c, i). \<not> isl (config c i)) items)"
  by (induction items) (auto simp: isl_Artwork_init artwork_id_Artwork_init)

lemma general_processor_conforming:
  assumes "\<forall>(c, i) \<in> set (imap_unordered item_ids sched).
             (case cls c i of Inl e \<Rightarrow> is_ArtworkError e | Inr a \<Rightarrow> True)"
  shows "general_processor cls item_ids sched =
           (Inr (map (\<lambda>(c, i). projr (cls c i))
                     (filter (\<lambda>(c, i). \<not> isl (cls c i)) (imap_unordered item_ids sched)),
                 map snd (filter (\<lambda>(c, i). isl (cls c i)) (imap_unordered item_ids sched))),
            map (\<lambda>j. (j + 1, length item_ids)) [0 ..< length sched])"
  by (simp add: general_processor_def consume_results_conforming [OF assms] length_imap_unordered)

lemma raises_only_ArtworkError_sched:
  assumes "valid_schedule (length item_ids) sched" and "raises_only_ArtworkError cls item_ids"
  shows "\<forall>(c, i) \<in> set (imap_unordered item_ids sched).
           (case cls c i of Inl e \<Rightarrow> is_ArtworkError e | Inr a \<Rightarrow> True)"
  using assms(2) by (auto simp: in_imap_unordered [OF assms(1)] raises_only_ArtworkError_def list_all_iff)

lemma distinct_same_outcome:
  "distinct item_ids \<Longrightarrow> same_outcome_for_equal_ids cls item_ids"
  by (auto simp: same_outcome_for_equal_ids_def list_all_iff nth_eq_iff_index_eq)

text \<open>
  Claim C1, as the code has it. For every list of ids, every valid completion order and
  every constructor that fails with \<^verbatim>\<open>ArtworkError\<close> only, \<^verbatim>\<open>_general_processor\<close>
  returns. As multisets the ids of the successes and the failures add up to the input, so
  that every occurrence of an id is processed once and ends in one of the two outputs;
  the two lengths add up to the length of the input; and every input id is in at least
  one output and no other id is in either. No id is in both outputs when the constructor
  treats all occurrences of an id alike, and so whenever the ids are distinct.
\<close>

theorem general_processor_partition:
  assumes "valid_schedule (length item_ids) sched"
    and "raises_only_ArtworkError config item_ids"
  shows "\<exists>succ fl. fst (general_processor (Artwork_init config) item_ids sched) = Inr (succ, fl)
           \<and> mset (map artwork_id succ) + mset fl = mset item_ids
           \<and> length succ + length fl = length item_ids
           \<and> set (map artwork_id succ) \<union> set fl = set item_ids
           \<and> (same_outcome_for_equal_ids config item_ids \<longrightarrow> set (map artwork_id succ) \<inter> set fl = {})
           \<and> (distinct item_ids \<longrightarrow> set (map artwork_id succ) \<inter> set fl = {})"
proof -
  let ?done = "imap_unordered item_ids sched"
  let ?succ = "map (\<lambda>(c, i). projr (Artwork_init config c i))
                   (filter (\<lambda>(c, i). \<not> isl (Artwork_init config c i)) ?done)"
  let ?fl = "map snd (filter (\<lambda>(c, i). isl (Artwork_init config c i)) ?done)"
  let ?P = "\<lambda>(c, i). isl (config c i)"
  let ?Q = "\<lambda>(c, i). \<not> isl (config c i)"
  have conf: "\<forall>(c, i) \<in> set ?done.
      (case Artwork_init config c i of Inl e \<Rightarrow> is_ArtworkError e | Inr a \<Rightarrow> True)"
    using assms by (intro raises_only_ArtworkError_sched) (simp_all add: raises_only_ArtworkError_init)
  have res: "fst (general_processor (Artwork_init config) item_ids sched) = Inr (?succ, ?fl)"
    by (simp add: general_processor_conforming [OF conf])
  have ids: "map artwork_id ?succ = map snd (filter ?Q ?done)"
    by (rule ids_of_constructed)
  have fl: "?fl = map snd (filter ?P ?done)"
    by (simp add: isl_Artwork_init)
  have "mset (map snd (filter ?Q ?done)) + mset (map snd (filter ?P ?done)) = mset (map snd ?done)"
    by (rule mset_map_filter_split) auto
  then have m: "mset (map artwork_id ?succ) + mset ?fl = mset item_ids"
    unfolding ids fl by (simp only: mset_imap_unordered [OF assms(1)])
  have s: "set (map artwork_id ?succ) \<union> set ?fl = set item_ids"
  proof -
    have "set_mset (mset (map artwork_id ?succ) + mset ?fl) = set_mset (mset item_ids)"
      by (simp only: m)
    then show ?thesis by (simp only: set_mset_union set_mset_mset)
  qed
  have l: "length ?succ + length ?fl = length item_ids"
  proof -
    have "size (mset (map artwork_id ?succ) + mset ?fl) = size (mset item_ids)"
      by (simp only: m)
    then show ?thesis by (simp only: size_union size_mset length_map)
  qed
  have d: "set (map artwork_id ?succ) \<inter> set ?fl = {}" if same: "same_outcome_for_equal_ids config item_ids"
  proof (rule ccontr)
    assume "set (map artwork_id ?succ) \<inter> set ?fl \<noteq> {}"
    then obtain x where x: "x \<in> set (map snd (filter ?Q ?done))"
      and x': "x \<in> set (map snd (filter ?P ?done))"
      unfolding ids fl by blast
    from x obtain c where c: "(c, x) \<in> set ?done" "\<not> isl (config c x)"
      by auto
    from x' obtain c' where c': "(c', x) \<in> set ?done" "isl (config c' x)"
      by auto
    from c(1) c'(1) have lt: "c < length item_ids" "c' < length item_ids"
      and at: "x = item_ids ! c" "x = item_ids ! c'"
      by (simp_all add: in_imap_unordered [OF assms(1)])
    from same have "\<forall>i < length item_ids. \<forall>j < length item_ids.
        item_ids ! i = item_ids ! j \<longrightarrow> isl (config i (item_ids ! i)) = isl (config j (item_ids ! j))"
      unfolding same_outcome_for_equal_ids_def list_all_iff set_upt atLeast0LessThan Ball_def lessThan_iff
      by blast
    moreover have "item_ids ! c = item_ids ! c'"
      using at by simp
    ultimately have "isl (config c (item_ids ! c)) = isl (config c' (item_ids ! c'))"
      using lt by blast
    then have "isl (config c x) = isl (config c' x)"
      by (simp only: at [symmetric])
    with c(2) c'(2) show False by simp
  qed
  show ?thesis
  proof (intro exI conjI impI)
    show "fst (general_processor (Artwork_init config) item_ids sched) = Inr (?succ, ?fl)"
      by (rule res)
    show "mset (map artwork_id ?succ) + mset ?fl = mset item_ids" by (rule m)
    show "length ?succ + length ?fl = length item_ids" by (rule l)
    show "set (map artwork_id ?succ) \<union> set ?fl = set item_ids" by (rule s)
    show "set (map artwork_id ?succ) \<inter> set ?fl = {}" if "same_outcome_for_equal_ids config item_ids"
      using that by (rule d)
    show "set (map artwork_id ?succ) \<inter> set ?fl = {}" if "distinct item_ids"
      using that by (intro d distinct_same_outcome)
  qed
qed

theorem general_processor_partition_witness:
  "valid_schedule (length [5, 2, 5 :: int]) [2, 0, 1]
   \<and> raises_only_ArtworkError example_config [5, 2, 5]
   \<and> same_outcome_for_equal_ids example_config [5, 2, 5]
   \<and> (\<exists>succ fl. fst (general_processor (Artwork_init example_config) [5, 2, 5] [2, 0, 1]) = Inr (succ, fl)
           \<and> mset (map artwork_id succ) + mset fl = mset [5, 2, 5]
           \<and> length succ + length fl = length [5, 2, 5 :: int]
           \<and> set (map artwork_id succ) \<union> set fl = set [5, 2, 5]
           \<and> set (map artwork_id succ) \<inter> set fl = {})
   \<and> valid_schedule (length [1, 2, 3 :: int]) [1, 2, 0]
   \<and> raises_only_ArtworkError example_config_flaky [1, 2, 3]
   \<and> distinct [1, 2, 3 :: int]
   \<and> (\<exists>succ fl. fst (general_processor (Artwork_init example_config_flaky) [1, 2, 3] [1, 2, 0]) = Inr (succ, fl)
           \<and> mset (map artwork_id succ) + mset fl = mset [1, 2, 3]
           \<and> length succ + length fl = length [1, 2, 3 :: int]
           \<and> set (map artwork_id succ) \<union> set fl = set [1, 2, 3]
           \<and> set (map artwork_id succ) \<inter> set fl = {})"
proof -
  have v: "valid_schedule (length [5, 2, 5 :: int]) [2, 0, 1]"
    by (simp add: valid_schedule_def)
  have c: "raises_only_ArtworkError example_config [5, 2, 5]"
    by (simp add: raises_only_ArtworkError_def example_config_def upt_rec)
  have o: "same_outcome_for_equal_ids example_config [5, 2, 5]"
    by (simp add: same_outcome_for_equal_ids_def example_config_def upt_rec)
  have v': "valid_schedule (length [1, 2, 3 :: int]) [1, 2, 0]"
    by (simp add: valid_schedule_def)
  have c': "raises_only_ArtworkError example_config_flaky [1, 2, 3]"
    by (simp add: raises_only_ArtworkError_def example_config_flaky_def upt_rec)
  have d': "distinct [1, 2, 3 :: int]" by simp
  have 1: "\<exists>succ fl. fst (general_processor (Artwork_init example_config) [5, 2, 5] [2, 0, 1]) = Inr (succ, fl)
           \<and> mset (map artwork_id succ) + mset fl = mset [5, 2, 5]
           \<and> length succ + length fl = length [5, 2, 5 :: int]
           \<and> set (map artwork_id succ) \<union> set fl = set [5, 2, 5]
           \<and> set (map artwork_id succ) \<inter> set fl = {}"
  proof -
    from general_processor_partition [OF v c] obtain succ fl
      where "fst (general_processor (Artwork_init example_config) [5, 2, 5] [2, 0, 1]) = Inr (succ, fl)"
        and "mset (map artwork_id succ) + mset fl = mset [5, 2, 5]"
        and "length succ + length fl = length [5, 2, 5 :: int]"
        and "set (map artwork_id succ) \<union> set fl = set [5, 2, 5]"
        and "same_outcome_for_equal_ids example_config [5, 2, 5] \<longrightarrow>
               set (map artwork_id succ) \<inter> set fl = {}"
      by (elim exE conjE)
    with o show ?thesis by (intro exI [of _ succ] exI [of _ fl] conjI) simp_all
  qed
  have 2: "\<exists>succ fl. fst (general_processor (Artwork_init example_config_flaky) [1, 2, 3] [1, 2, 0]) = Inr (succ, fl)
           \<and> mset (map artwork_id succ) + mset fl = mset [1, 2, 3]
           \<and> length succ + length fl = length [1, 2, 3 :: int]
           \<and> set (map artwork_id succ) \<union> set fl = set [1, 2, 3]
           \<and> set (map artwork_id succ) \<inter> set fl = {}"
  proof -
    from general_processor_partition [OF v' c'] obtain succ fl
      where "fst (general_processor (Artwork_init example_config_flaky) [1, 2, 3] [1, 2, 0]) = Inr (succ, fl)"
        and "mset (map artwork_id succ) + mset fl = mset [1, 2, 3]"
        and "length succ + length fl = length [1, 2, 3 :: int]"
        and "set (map artwork_id succ) \<union> set fl = set [1, 2, 3]"
        and "distinct [1, 2, 3 :: int] \<longrightarrow> set (map artwork_id succ) \<inter> set fl = {}"
      by (elim exE conjE)
    with d' show ?thesis by (intro exI [of _ succ] exI [of _ fl] conjI) simp_all
  qed
  from v c o 1 v' c' d' 2 show ?thesis
    by (intro conjI)
qed

lemma general_processor_example:
  "general_processor (Artwork_init example_config) [5, 2, 5] [2, 0, 1] =
     (Inr ([\<lparr>artwork_id = 5, variables = ''art''\<rparr>, \<lparr>artwork_id = 5, variables = ''art''\<rparr>], [2]),
      [(1, 3), (2, 3), (3, 3)])"
  by (simp add: general_processor_def imap_unordered_def process_item_def Artwork_init_def
      example_config_def)

text \<open>
  With an id given twice and a constructor that fails in the second call only, the call
  returns with the id in both outputs.
\<close>

theorem general_processor_partition_counterexample:
  "valid_schedule (length [5, 5 :: int]) [0, 1]
   \<and> raises_only_ArtworkError example_config_flaky [5, 5]
   \<and> fst (general_processor (Artwork_init example_config_flaky) [5, 5] [0, 1])
       = Inr ([\<lparr>artwork_id = 5, variables = ''art''\<rparr>], [5])
   \<and> set (map artwork_id [\<lparr>artwork_id = 5, variables = ''art''\<rparr>]) \<inter> set [5 :: int] \<noteq> {}"
  by (simp add: valid_schedule_def raises_only_ArtworkError_def example_config_flaky_def upt_rec
      general_processor_def imap_unordered_def process_item_def Artwork_init_def)










text \<open>
  Claim C10. \<^verbatim>\<open>process\<close> raises \<^verbatim>\<open>ProcessError\<close> for a process type that fails
  \<^verbatim>\<open>is_valid\<close>; for one that passes and is neither \<open>MANGA\<close> nor \<open>ILLUST\<close> the
  dictionary lookup raises \<^verbatim>\<open>KeyError\<close>; for the two keys it calls the method stored
  under the key.
\<close>

theorem process_type_errors:
  "(\<not> is_valid process_type \<longrightarrow> (\<exists>m. process is_valid call ids process_type = Inl (ProcessError m)))
   \<and> (is_valid process_type \<and> process_type \<noteq> MANGA \<and> process_type \<noteq> ILLUST \<longrightarrow>
        (\<exists>m. process is_valid call ids process_type = Inl (KeyError m)))
   \<and> (is_valid MANGA \<longrightarrow> process is_valid call ids MANGA = call process_mangas ids)
   \<and> (is_valid ILLUST \<longrightarrow> process is_valid call ids ILLUST = call process_illusts ids)"
  by (cases process_type) (simp_all add: process_def type_to_function_def)

theorem process_type_errors_witness:
  "\<not> example_is_valid (OtherType ''gif'')
   \<and> process example_is_valid example_call [1, 2] (OtherType ''gif'') = Inl (ProcessError ''PROCESS_TYPE_ERROR'')
   \<and> example_is_valid (OtherType ''novel'')
   \<and> OtherType ''novel'' \<noteq> (MANGA :: string ProcessType) \<and> OtherType ''novel'' \<noteq> (ILLUST :: string ProcessType)
   \<and> process example_is_valid example_call [1, 2] (OtherType ''novel'') = Inl (KeyError ''process_type'')
   \<and> example_is_valid MANGA \<and> process example_is_valid example_call [1, 2] MANGA = Inr 0
   \<and> example_is_valid ILLUST \<and> process example_is_valid example_call [1, 2] ILLUST = Inr 2"
  using process_type_errors [of example_is_valid "OtherType ''gif''" example_call "[1, 2]"]
    process_type_errors [of example_is_valid "OtherType ''novel''" example_call "[1, 2]"]
  by (simp add: example_is_valid_def example_call_def process_def type_to_function_def)

section \<open>Properties of webclient.py\<close>

subsection \<open>Parsing the cookies a user enters\<close>

lemma fold_delete_keys:
  "set (map fst jar) \<subseteq> set ks \<Longrightarrow> fold (\<lambda>k j. AList.delete k j) ks jar = []"
proof (induction ks arbitrary: jar)
  case Nil
  then show ?case by simp
next
  case (Cons k ks)
  have "set (map fst (AList.delete k jar)) \<subseteq> set ks"
    using Cons.prems by (auto simp: delete_keys)
  from Cons.IH [OF this] show ?case by simp
qed

lemma remove_old_cookies_empty: "remove_old_cookies jar = []"
  by (simp add: remove_old_cookies_def fold_delete_keys)

lemma py_split1_no_sep: "sep \<notin> set s \<Longrightarrow> py_split1 sep s = [s]"
  by (induction s) auto

lemma py_split1_sep:
  "sep \<in> set s \<Longrightarrow> py_split1 sep s = [takeWhile (\<lambda>c. c \<noteq> sep) s, tl (dropWhile (\<lambda>c. c \<noteq> sep) s)]"
proof (induction s)
  case Nil
  then show ?case by simp
next
  case (Cons c s)
  show ?case
  proof (cases "c = sep")
    case True
    then show ?thesis by simp
  next
    case False
    with Cons.prems have "sep \<in> set s" by simp
    from Cons.IH [OF this] False show ?thesis by simp
  qed
qed

lemma add_new_cookies_malformed:
  assumes "\<not> list_all well_formed_entry entries"
  shows "\<exists>m. fst (add_new_cookies entries jar) = Some (ValueError m)"
    and "snd (add_new_cookies entries jar) = snd (add_new_cookies (takeWhile well_formed_entry entries) jar)"
  using assms
proof (induction entries arbitrary: jar)
  case Nil
  { case 1 then show ?case by simp }
  { case 2 then show ?case by simp }
next
  case (Cons e entries)
  { case 1
    show ?case
    proof (cases "well_formed_entry e")
      case True
      with 1 have "\<not> list_all well_formed_entry entries" by simp
      from Cons.IH(1) [OF this] True show ?thesis
        by (simp add: well_formed_entry_def py_split1_sep)
    next
      case False
      then show ?thesis by (simp add: well_formed_entry_def py_split1_no_sep)
    qed }
  { case 2
    show ?case
    proof (cases "well_formed_entry e")
      case True
      with 2 have "\<not> list_all well_formed_entry entries" by simp
      from Cons.IH(2) [OF this] True show ?thesis
        by (simp add: well_formed_entry_def py_split1_sep)
    next
      case False
      then show ?thesis by (simp add: well_formed_entry_def py_split1_no_sep)
    qed }
qed

lemma add_new_cookies_well_formed:
  "list_all well_formed_entry entries \<Longrightarrow> fst (add_new_cookies entries jar) = None"
  by (induction entries arbitrary: jar) (auto simp: well_formed_entry_def py_split1_sep)

text \<open>
  Claim C4, as the code has it. Parsing \<^verbatim>\<open>"a=1;b=2"\<close> leaves exactly the two cookies
  \<open>a=1\<close> and \<open>b=2\<close> in the session, whatever was there before. Parsing a string
  with an entry that has no \<^verbatim>\<open>=\<close> raises \<^verbatim>\<open>LoginError\<close>; the session then holds the
  cookies of the entries before the first such entry and none of the cookies it held
  before the call.
\<close>

theorem change_to_new_cookies_parse:
  "change_to_new_cookies ''a=1;b=2'' w =
     (Inr (), (log_event Enter_change_to_new_cookies w)\<lparr>session_cookies := [(''a'', ''1''), (''b'', ''2'')]\<rparr>)
   \<and> (\<not> list_all well_formed_entry (py_split CHR '';'' user_cookies) \<longrightarrow>
        (\<exists>m. fst (change_to_new_cookies user_cookies w) = Inl (LoginError m))
        \<and> session_cookies (snd (change_to_new_cookies user_cookies w))
            = snd (add_new_cookies (takeWhile well_formed_entry (py_split CHR '';'' user_cookies)) []))"
proof -
  have a: "change_to_new_cookies ''a=1;b=2'' w =
     (Inr (), (log_event Enter_change_to_new_cookies w)\<lparr>session_cookies := [(''a'', ''1''), (''b'', ''2'')]\<rparr>)"
    by (simp add: change_to_new_cookies_def Let_def remove_old_cookies_empty log_event_def)
  have b: "(\<exists>m. fst (change_to_new_cookies user_cookies w) = Inl (LoginError m))
        \<and> session_cookies (snd (change_to_new_cookies user_cookies w))
            = snd (add_new_cookies (takeWhile well_formed_entry (py_split CHR '';'' user_cookies)) [])"
    if bad: "\<not> list_all well_formed_entry (py_split CHR '';'' user_cookies)"
  proof -
    obtain r jar where r: "add_new_cookies (py_split CHR '';'' user_cookies) [] = (r, jar)"
      by (cases "add_new_cookies (py_split CHR '';'' user_cookies) []")
    from add_new_cookies_malformed [OF bad, of "[]"] r
    obtain m where "r = Some (ValueError m)"
      and "jar = snd (add_new_cookies (takeWhile well_formed_entry (py_split CHR '';'' user_cookies)) [])"
      by auto
    with r show ?thesis
      by (simp add: change_to_new_cookies_def Let_def remove_old_cookies_empty log_event_def)
  qed
  from a b show ?thesis by blast
qed

theorem change_to_new_cookies_parse_witness:
  "\<not> list_all well_formed_entry (py_split CHR '';'' ''a=1;bad'')
   \<and> fst (change_to_new_cookies ''a=1;bad'' (example_world None [])) =
       Inl (LoginError ''Cookies given is invalid, please try again | not enough values to unpack (expected 2, got 1)'')
   \<and> session_cookies (snd (change_to_new_cookies ''a=1;bad'' (example_world None []))) = [(''a'', ''1'')]"
proof -
  have bad: "\<not> list_all well_formed_entry (py_split CHR '';'' ''a=1;bad'')"
    by (simp add: well_formed_entry_def)
  have ev: "fst (change_to_new_cookies ''a=1;bad'' (example_world None [])) =
       Inl (LoginError ''Cookies given is invalid, please try again | not enough values to unpack (expected 2, got 1)'')"
    by (simp add: change_to_new_cookies_def Let_def remove_old_cookies_def log_event_def example_world_def)
  have "snd (add_new_cookies (takeWhile well_formed_entry (py_split CHR '';'' ''a=1;bad'')) []) = [(''a'', ''1'')]"
    by (simp add: well_formed_entry_def)
  with change_to_new_cookies_parse [of "example_world None []" "''a=1;bad''"] bad ev
  show ?thesis by simp
qed

text \<open>
  The cookies of the session are not left as they were: with one old cookie in the
  session, parsing \<^verbatim>\<open>"a=1;bad"\<close> fails and leaves the single cookie \<open>a=1\<close>.
\<close>

theorem change_to_new_cookies_counterexample:
  "session_cookies (example_world None []) = [(''old'', ''x'')]
   \<and> fst (change_to_new_cookies ''a=1;bad'' (example_world None [])) =
       Inl (LoginError ''Cookies given is invalid, please try again | not enough values to unpack (expected 2, got 1)'')
   \<and> session_cookies (snd (change_to_new_cookies ''a=1;bad'' (example_world None []))) = [(''a'', ''1'')]
   \<and> session_cookies (snd (change_to_new_cookies ''a=1;bad'' (example_world None [])))
       \<noteq> session_cookies (example_world None [])"
  by (simp add: change_to_new_cookies_def Let_def remove_old_cookies_def log_event_def example_world_def)

subsection \<open>What a run adds to the trace\<close>

lemma saves_verified_weaken: "saves_verified None evs \<Longrightarrow> saves_verified p evs"
  by (cases evs) (auto split: if_splits)

lemma saves_verified_append:
  "saves_verified p xs \<Longrightarrow> saves_verified None ys \<Longrightarrow> saves_verified p (xs @ ys)"
  by (induction xs arbitrary: p) (auto intro: saves_verified_weaken)

lemma new_events_eq: "trace w' = trace w @ evs \<Longrightarrow> new_events w w' = evs"
  by (simp add: new_events_def)

lemma run_okI:
  assumes "trace w' = trace w @ evs" and "saves_verified None evs"
    and "isl r \<Longrightarrow> Enter_save_cookies \<notin> set evs"
    and "\<not> isl r \<Longrightarrow> Returned_check_is_logged True \<in> set evs"
    and "Enter_save_cookies \<notin> set evs \<Longrightarrow> cookies_file w' = cookies_file w \<or> cookies_file w' = None"
  shows "run_ok w r w'"
  using assms by (auto simp: run_ok_def Let_def new_events_eq)

lemma run_okD:
  assumes "run_ok w r w'"
  shows "trace w' = trace w @ new_events w w'" and "saves_verified None (new_events w w')"
    and "isl r \<Longrightarrow> Enter_save_cookies \<notin> set (new_events w w')"
    and "\<not> isl r \<Longrightarrow> Returned_check_is_logged True \<in> set (new_events w w')"
    and "Enter_save_cookies \<notin> set (new_events w w') \<Longrightarrow> cookies_file w' = cookies_file w \<or> cookies_file w' = None"
  using assms by (auto simp: run_ok_def Let_def split: if_splits)

lemma run_ok_after_failure:
  assumes 1: "run_ok w r1 w1" and f: "isl r1" and 2: "run_ok w1 r2 w2"
  shows "run_ok w r2 w2"
proof (rule run_okI)
  let ?a = "new_events w w1" and ?b = "new_events w1 w2"
  show "trace w2 = trace w @ (?a @ ?b)"
    using run_okD(1) [OF 1] run_okD(1) [OF 2] by simp
  show "saves_verified None (?a @ ?b)"
    using run_okD(2) [OF 1] run_okD(2) [OF 2] by (rule saves_verified_append)
  show "Enter_save_cookies \<notin> set (?a @ ?b)" if "isl r2"
    using run_okD(3) [OF 1 f] run_okD(3) [OF 2 that] by simp
  show "Returned_check_is_logged True \<in> set (?a @ ?b)" if "\<not> isl r2"
    using run_okD(4) [OF 2 that] by simp
  show "cookies_file w2 = cookies_file w \<or> cookies_file w2 = None" if "Enter_save_cookies \<notin> set (?a @ ?b)"
    using that run_okD(5) [OF 1] run_okD(5) [OF 2] by auto
qed

lemma run_ok_log_event:
  assumes "run_ok (log_event ev w) r w'" and "ev \<noteq> Enter_save_cookies"
  shows "run_ok w r w'"
proof (rule run_okI)
  let ?b = "new_events (log_event ev w) w'"
  show "trace w' = trace w @ (ev # ?b)"
    using run_okD(1) [OF assms(1)] by (simp add: log_event_def)
  show "saves_verified None (ev # ?b)"
    using saves_verified_append [of None "[ev]" ?b] run_okD(2) [OF assms(1)] assms(2) by simp
  show "Enter_save_cookies \<notin> set (ev # ?b)" if "isl r"
    using run_okD(3) [OF assms(1) that] assms(2) by simp
  show "Returned_check_is_logged True \<in> set (ev # ?b)" if "\<not> isl r"
    using run_okD(4) [OF assms(1) that] by simp
  show "cookies_file w' = cookies_file w \<or> cookies_file w' = None" if "Enter_save_cookies \<notin> set (ev # ?b)"
    using that run_okD(5) [OF assms(1)] by (auto simp: log_event_def)
qed

lemma util_req_frame:
  assumes "util_req svc r w = (res, w')"
  shows "trace w' = trace w" and "cookies_file w' = cookies_file w" and "stdin w' = stdin w"
  using assms by (auto simp: util_req_def split: prod.splits)

lemma check_is_logged_frame:
  assumes "check_is_logged svc w = (r, w')"
  shows "trace w' = trace w @ (case r of Inr b \<Rightarrow> [Returned_check_is_logged b] | Inl e \<Rightarrow> [])"
    and "cookies_file w' = cookies_file w" and "stdin w' = stdin w"
  using assms util_req_frame [of svc "GET login_check_url" w]
  by (auto simp: check_is_logged_def log_event_def split: prod.splits sum.splits)

lemma save_cookies_trace: "trace (save_cookies svc w) = trace w @ [Enter_save_cookies]"
  by (simp add: save_cookies_def log_event_def)

lemma get_postkey_frame:
  assumes "get_postkey svc w = (r, w')"
  shows "trace w' = trace w @ [Enter_get_postkey]" and "cookies_file w' = cookies_file w"
  using assms util_req_frame [of svc "GET post_key_url" "log_event Enter_get_postkey w"]
  by (auto simp: get_postkey_def log_event_def split: prod.splits sum.splits option.splits if_splits)

lemma change_to_new_cookies_frame:
  assumes "change_to_new_cookies c w = (r, w')"
  shows "trace w' = trace w @ [Enter_change_to_new_cookies]" and "cookies_file w' = cookies_file w"
    and "stdin w' = stdin w"
  using assms
  by (auto simp: change_to_new_cookies_def Let_def log_event_def split: prod.splits option.splits if_splits)

lemma AccountClient_login_events:
  assumes "AccountClient_login svc u p w = (r, w')"
  shows "(r = Inr () \<and> trace w' = trace w @ [Enter_AccountClient_login, Enter_get_postkey,
                                            Returned_check_is_logged True, Enter_save_cookies])
       \<or> (isl r \<and> cookies_file w' = cookies_file w
           \<and> (trace w' = trace w @ [Enter_AccountClient_login, Enter_get_postkey]
              \<or> trace w' = trace w @ [Enter_AccountClient_login, Enter_get_postkey,
                                       Returned_check_is_logged False]))"
proof (cases "get_postkey svc (log_event Enter_AccountClient_login w)")
  case (Pair r1 w1)
  note g = get_postkey_frame [OF Pair]
  show ?thesis
  proof (cases r1)
    case (Inl e)
    with Pair assms g show ?thesis
      by (auto simp: AccountClient_login_def log_event_def)
  next
    case (Inr postkey)
    obtain r2 w2 where q: "util_req svc (POST login_url [(''password'', p), (''pixiv_id'', u), (''post_key'', postkey)] [(''lang'', ''en'')]) w1 = (r2, w2)"
      by (cases "util_req svc (POST login_url [(''password'', p), (''pixiv_id'', u), (''post_key'', postkey)] [(''lang'', ''en'')]) w1")
    note u = util_req_frame [OF q]
    show ?thesis
    proof (cases r2)
      case (Inl e)
      with Pair Inr q assms g u show ?thesis
        by (auto simp: AccountClient_login_def log_event_def Let_def split: if_splits)
    next
      case resp: (Inr resp)
      obtain r3 w3 where c: "check_is_logged svc w2 = (r3, w3)"
        by (cases "check_is_logged svc w2")
      note k = check_is_logged_frame [OF c]
      from Pair Inr q resp c assms g u k show ?thesis
        by (auto simp: AccountClient_login_def log_event_def Let_def save_cookies_def
            split: sum.splits bool.splits)
    qed
  qed
qed

lemma AccountClient_login_ok:
  assumes "AccountClient_login svc u p w = (r, w')"
  shows "run_ok w r w'"
  using AccountClient_login_events [OF assms]
  by (auto intro!: run_okI)

lemma local_cookies_login_events:
  assumes "local_cookies_login svc w = (r, w')"
  shows "(r = Inr () \<and> cookies_file w' = cookies_file w
            \<and> trace w' = trace w @ [Enter_local_cookies_login, Returned_check_is_logged True])
       \<or> (isl r \<and> (cookies_file w' = cookies_file w \<or> cookies_file w' = None)
           \<and> (trace w' = trace w @ [Enter_local_cookies_login]
              \<or> trace w' = trace w @ [Enter_local_cookies_login, Returned_check_is_logged False]))"
proof (cases "cookies_file w")
  case None
  with assms show ?thesis
    by (auto simp: local_cookies_login_def Let_def log_event_def)
next
  case (Some file_data)
  show ?thesis
  proof (cases "pickle_load svc file_data")
    case (Inl e)
    with Some assms show ?thesis
      by (auto simp: local_cookies_login_def local_cookies_try_def Let_def log_event_def split: if_splits)
  next
    case (Inr local_cookies)
    obtain r3 w3 where c: "check_is_logged svc ((log_event Enter_local_cookies_login w)\<lparr>session_cookies := local_cookies\<rparr>) = (r3, w3)"
      by (cases "check_is_logged svc ((log_event Enter_local_cookies_login w)\<lparr>session_cookies := local_cookies\<rparr>)")
    note k = check_is_logged_frame [OF c]
    from Some Inr c k assms show ?thesis
      by (auto simp: local_cookies_login_def local_cookies_try_def Let_def log_event_def
          split: sum.splits bool.splits if_splits)
  qed
qed

lemma local_cookies_login_ok:
  assumes "local_cookies_login svc w = (r, w')"
  shows "run_ok w r w'"
  using local_cookies_login_events [OF assms]
  by (auto intro!: run_okI)

lemma saves_verified_no_save: "Enter_save_cookies \<notin> set evs \<Longrightarrow> saves_verified p evs"
  by (induction evs arbitrary: p) auto

lemma run_ok_prefix:
  assumes t: "trace w1 = trace w @ evs0" and n: "Enter_save_cookies \<notin> set evs0"
    and c: "cookies_file w1 = cookies_file w" and r: "run_ok w1 r w'"
  shows "run_ok w r w'" and "new_events w w' = evs0 @ new_events w1 w'"
proof -
  let ?b = "new_events w1 w'"
  have tr: "trace w' = trace w @ (evs0 @ ?b)"
    using run_okD(1) [OF r] t by simp
  then show "new_events w w' = evs0 @ ?b" by (rule new_events_eq)
  show "run_ok w r w'"
  proof (rule run_okI [OF tr])
    show "saves_verified None (evs0 @ ?b)"
      using saves_verified_no_save [OF n] run_okD(2) [OF r] by (rule saves_verified_append)
    show "Enter_save_cookies \<notin> set (evs0 @ ?b)" if "isl r"
      using run_okD(3) [OF r that] n by simp
    show "Returned_check_is_logged True \<in> set (evs0 @ ?b)" if "\<not> isl r"
      using run_okD(4) [OF r that] by simp
    show "cookies_file w' = cookies_file w \<or> cookies_file w' = None" if "Enter_save_cookies \<notin> set (evs0 @ ?b)"
      using that run_okD(5) [OF r] c by auto
  qed
qed

lemma run_ok_stop:
  assumes "trace w' = trace w @ evs0" and "Enter_save_cookies \<notin> set evs0"
    and "cookies_file w' = cookies_file w" and "isl r"
  shows "run_ok w r w'"
  using assms by (auto intro!: run_okI saves_verified_no_save)

lemma input_line_frame:
  assumes "input_line w = (x, w1)"
  shows "trace w1 = trace w" and "cookies_file w1 = cookies_file w"
  using assms by (auto simp: input_line_def split: list.splits)

lemma user_cookies_loop_ok:
  "user_cookies_loop svc w = (r, w') \<Longrightarrow> run_ok w r w' \<and> set (new_events w w') \<subseteq> inner_events"
proof (induction svc w arbitrary: r w' rule: user_cookies_loop.induct)
  case (1 svc w)
  note run = "1.prems"
  obtain x1 w1 where i1: "input_line w = (x1, w1)"
    by (cases "input_line w")
  note f1 = input_line_frame [OF i1]
  show ?case
  proof (cases x1)
    case (Inl e)
    with run i1 have "r = Inl e" "w' = w1"
      by (simp_all add: user_cookies_loop.simps [of svc w])
    with f1 show ?thesis
      by (auto intro!: run_ok_stop [where ?evs0.0 = "[]"] simp: new_events_def)
  next
    case line: (Inr line)
    define answer where "answer = str_lower svc (str_strip svc line)"
    show ?thesis
    proof (cases "answer \<in> set [''n'', ''no'']")
      case True
      with run i1 line have "r = Inl (LoginError ''Failed login with user cookies'')" "w' = w1"
        by (simp_all add: user_cookies_loop.simps [of svc w] answer_def Let_def)
      with f1 show ?thesis
        by (auto intro!: run_ok_stop [where ?evs0.0 = "[]"] simp: new_events_def)
    next
      case no: False
      show ?thesis
      proof (cases "answer \<notin> set [''y'', ''yes'']")
        case True
        with run i1 line no have rec: "user_cookies_loop svc w1 = (r, w')"
          by (simp add: user_cookies_loop.simps [of svc w] answer_def Let_def)
        from "1.IH"(1) [OF i1 [symmetric] line answer_def no True rec]
        have ih: "run_ok w1 r w'" "set (new_events w1 w') \<subseteq> inner_events" by simp_all
        from run_ok_prefix [where ?evs0.0 = "[]", OF _ _ f1(2) ih(1)] f1(1) ih(2)
        show ?thesis by simp
      next
        case yes: False
        obtain x2 w2 where i2: "input_line w1 = (x2, w2)"
          by (cases "input_line w1")
        note f2 = input_line_frame [OF i2]
        show ?thesis
        proof (cases x2)
          case (Inl e)
          with run i1 line no yes i2 have "r = Inl e" "w' = w2"
            by (simp_all add: user_cookies_loop.simps [of svc w] answer_def Let_def)
          with f1 f2 show ?thesis
            by (auto intro!: run_ok_stop [where ?evs0.0 = "[]"] simp: new_events_def)
        next
          case cookies: (Inr cookies)
          obtain x3 w3 where c3: "change_to_new_cookies cookies w2 = (x3, w3)"
            by (cases "change_to_new_cookies cookies w2")
          note f3 = change_to_new_cookies_frame [OF c3]
          have t3: "trace w3 = trace w @ [Enter_change_to_new_cookies]"
            using f1 f2 f3 by simp
          have k3: "cookies_file w3 = cookies_file w"
            using f1 f2 f3 by simp
          show ?thesis
          proof (cases x3)
            case e3: (Inl e)
            show ?thesis
            proof (cases "is_LoginError e")
              case True
              with run i1 line no yes i2 cookies c3 e3 have rec: "user_cookies_loop svc w3 = (r, w')"
                by (simp add: user_cookies_loop.simps [of svc w] answer_def Let_def)
              from "1.IH"(2) [OF i1 [symmetric] line answer_def no yes i2 [symmetric] cookies
                  c3 [symmetric] e3 True rec]
              have ih: "run_ok w3 r w'" "set (new_events w3 w') \<subseteq> inner_events" by simp_all
              from run_ok_prefix [OF t3 _ k3 ih(1)] ih(2)
              show ?thesis by (simp add: inner_events_def)
            next
              case False
              with run i1 line no yes i2 cookies c3 e3 have "r = Inl e" "w' = w3"
                by (simp_all add: user_cookies_loop.simps [of svc w] answer_def Let_def)
              with t3 k3 show ?thesis
                by (auto intro!: run_ok_stop [OF t3] simp: new_events_eq [OF t3] inner_events_def)
            qed
          next
            case u3: (Inr u)
            obtain x4 w4 where c4: "check_is_logged svc w3 = (x4, w4)"
              by (cases "check_is_logged svc w3")
            note f4 = check_is_logged_frame [OF c4]
            have k4: "cookies_file w4 = cookies_file w"
              using k3 f4 by simp
            show ?thesis
            proof (cases x4)
              case e4: (Inl e)
              have t4: "trace w4 = trace w @ [Enter_change_to_new_cookies]"
                using t3 f4 e4 by simp
              show ?thesis
              proof (cases "is_LoginError e")
                case True
                with run i1 line no yes i2 cookies c3 u3 c4 e4 have rec: "user_cookies_loop svc w4 = (r, w')"
                  by (simp add: user_cookies_loop.simps [of svc w] answer_def Let_def)
                from "1.IH"(3) [OF i1 [symmetric] line answer_def no yes i2 [symmetric] cookies
                    c3 [symmetric] u3 c4 [symmetric] e4 True rec]
                have ih: "run_ok w4 r w'" "set (new_events w4 w') \<subseteq> inner_events" by simp_all
                from run_ok_prefix [OF t4 _ k4 ih(1)] ih(2)
                show ?thesis by (simp add: inner_events_def)
              next
                case False
                with run i1 line no yes i2 cookies c3 u3 c4 e4 have "r = Inl e" "w' = w4"
                  by (simp_all add: user_cookies_loop.simps [of svc w] answer_def Let_def)
                with t4 k4 show ?thesis
                  by (auto intro!: run_ok_stop [OF t4] simp: new_events_eq [OF t4] inner_events_def)
              qed
            next
              case b4: (Inr b)
              have t4: "trace w4 = trace w @ [Enter_change_to_new_cookies, Returned_check_is_logged b]"
                using t3 f4 b4 by simp
              show ?thesis
              proof (cases b)
                case True
                with run i1 line no yes i2 cookies c3 u3 c4 b4
                have res: "r = Inr ()" "w' = save_cookies svc w4"
                  by (simp_all add: user_cookies_loop.simps [of svc w] answer_def Let_def)
                have t5: "trace w' = trace w @ [Enter_change_to_new_cookies, Returned_check_is_logged True,
                                               Enter_save_cookies]"
                  using res t4 True by (simp add: save_cookies_trace)
                have "run_ok w r w'"
                  using res(1) by (intro run_okI [OF t5]) simp_all
                moreover have "set (new_events w w') \<subseteq> inner_events"
                  by (simp add: new_events_eq [OF t5] inner_events_def)
                ultimately show ?thesis ..
              next
                case False
                with run i1 line no yes i2 cookies c3 u3 c4 b4 have rec: "user_cookies_loop svc w4 = (r, w')"
                  by (simp add: user_cookies_loop.simps [of svc w] answer_def Let_def)
                from "1.IH"(4) [OF i1 [symmetric] line answer_def no yes i2 [symmetric] cookies
                    c3 [symmetric] u3 c4 [symmetric] b4 _ rec] False
                have ih: "run_ok w4 r w'" "set (new_events w4 w') \<subseteq> inner_events" by simp_all
                from run_ok_prefix [OF t4 _ k4 ih(1)] ih(2) False
                show ?thesis by (simp add: inner_events_def)
              qed
            qed
          qed
        qed
      qed
    qed
  qed
qed

lemma new_events_trans:
  assumes "run_ok w r1 w1" and "run_ok w1 r2 w2"
  shows "new_events w w2 = new_events w w1 @ new_events w1 w2"
  using run_okD(1) [OF assms(1)] run_okD(1) [OF assms(2)]
  by (intro new_events_eq) simp

lemma new_events_log_event:
  assumes "run_ok (log_event ev w) r w'"
  shows "new_events w w' = ev # new_events (log_event ev w) w'"
  using run_okD(1) [OF assms] by (intro new_events_eq) (simp add: log_event_def)

lemma strategies_tried_inner: "set evs \<subseteq> inner_events \<Longrightarrow> strategies_tried evs = []"
  by (auto simp: strategies_tried_def inner_events_def is_strategy_entry_def filter_empty_conv)

lemma AccountClient_login_tried:
  assumes "AccountClient_login svc u p w = (r, w')"
  shows "strategies_tried (new_events w w') = [Enter_AccountClient_login]"
    and "Enter_CookiesClient_login \<notin> set (new_events w w')"
  using AccountClient_login_events [OF assms]
  by (auto simp: strategies_tried_def is_strategy_entry_def dest!: new_events_eq)

lemma local_cookies_login_tried:
  assumes "local_cookies_login svc w = (r, w')"
  shows "strategies_tried (new_events w w') = [Enter_local_cookies_login]"
  using local_cookies_login_events [OF assms]
  by (auto simp: strategies_tried_def is_strategy_entry_def dest!: new_events_eq)

lemma user_cookies_login_ok:
  assumes "user_cookies_login svc w = (r, w')"
  shows "run_ok w r w'" and "strategies_tried (new_events w w') = [Enter_user_cookies_login]"
proof -
  from assms have loop: "user_cookies_loop svc (log_event Enter_user_cookies_login w) = (r, w')"
    by (simp add: user_cookies_login_def)
  from user_cookies_loop_ok [OF loop]
  have ok: "run_ok (log_event Enter_user_cookies_login w) r w'"
    and inner: "set (new_events (log_event Enter_user_cookies_login w) w') \<subseteq> inner_events"
    by simp_all
  from ok show "run_ok w r w'" by (rule run_ok_log_event) simp
  show "strategies_tried (new_events w w') = [Enter_user_cookies_login]"
    using strategies_tried_inner [OF inner]
    by (simp add: new_events_log_event [OF ok] strategies_tried_def is_strategy_entry_def)
qed

lemma CookiesClient_login_ok:
  assumes "CookiesClient_login svc w = (r, w')"
  shows "run_ok w r w'"
    and "strategies_tried (new_events w w') = [Enter_local_cookies_login]
         \<or> strategies_tried (new_events w w') = [Enter_local_cookies_login, Enter_user_cookies_login]"
proof -
  let ?w0 = "log_event Enter_CookiesClient_login w"
  obtain r1 w1 where l: "local_cookies_login svc ?w0 = (r1, w1)"
    by (cases "local_cookies_login svc ?w0")
  note ok1 = local_cookies_login_ok [OF l]
  note tried1 = local_cookies_login_tried [OF l]
  have "run_ok ?w0 r w' \<and> (strategies_tried (new_events ?w0 w') = [Enter_local_cookies_login]
         \<or> strategies_tried (new_events ?w0 w') = [Enter_local_cookies_login, Enter_user_cookies_login])"
  proof (cases "\<exists>e. r1 = Inl e \<and> is_LoginError e")
    case False
    with assms l have "r = r1" "w' = w1"
      by (auto simp: CookiesClient_login_def split: sum.splits)
    with ok1 tried1 show ?thesis by simp
  next
    case True
    then obtain e where e: "r1 = Inl e" "is_LoginError e" by blast
    obtain r2 w2 where u: "user_cookies_login svc w1 = (r2, w2)"
      by (cases "user_cookies_login svc w1")
    note ok2 = user_cookies_login_ok(1) [OF u]
    note tried2 = user_cookies_login_ok(2) [OF u]
    from assms l e u have w': "w' = w2" and r: "isl r = isl r2"
      by (auto simp: CookiesClient_login_def split: sum.splits if_splits)
    from ok2 have ok2': "run_ok w1 r w2"
      using r by (simp add: run_ok_def)
    have "run_ok ?w0 r w2"
      using ok1 _ ok2' by (rule run_ok_after_failure) (simp add: e)
    moreover have "strategies_tried (new_events ?w0 w2) = [Enter_local_cookies_login, Enter_user_cookies_login]"
      using tried1 tried2 by (simp add: new_events_trans [OF ok1 ok2] strategies_tried_def)
    ultimately show ?thesis using w' by simp
  qed
  then have ok: "run_ok ?w0 r w'"
    and tried: "strategies_tried (new_events ?w0 w') = [Enter_local_cookies_login]
         \<or> strategies_tried (new_events ?w0 w') = [Enter_local_cookies_login, Enter_user_cookies_login]"
    by simp_all
  from ok show "run_ok w r w'" by (rule run_ok_log_event) simp
  from tried show "strategies_tried (new_events w w') = [Enter_local_cookies_login]
         \<or> strategies_tried (new_events w w') = [Enter_local_cookies_login, Enter_user_cookies_login]"
    by (simp add: new_events_log_event [OF ok] strategies_tried_def is_strategy_entry_def)
qed

lemma WebAPIClient_login_ok:
  assumes "WebAPIClient_login svc u p w = (r, w')"
  shows "run_ok w r w'"
    and "strategies_tried (new_events w w')
           \<in> set [[Enter_AccountClient_login],
                   [Enter_AccountClient_login, Enter_local_cookies_login],
                   [Enter_AccountClient_login, Enter_local_cookies_login, Enter_user_cookies_login]]"
proof -
  obtain r1 w1 where a: "AccountClient_login svc u p w = (r1, w1)"
    by (cases "AccountClient_login svc u p w")
  note ok1 = AccountClient_login_ok [OF a]
  note tried1 = AccountClient_login_tried(1) [OF a]
  have "run_ok w r w' \<and> strategies_tried (new_events w w')
           \<in> set [[Enter_AccountClient_login],
                   [Enter_AccountClient_login, Enter_local_cookies_login],
                   [Enter_AccountClient_login, Enter_local_cookies_login, Enter_user_cookies_login]]"
  proof (cases "\<exists>e. r1 = Inl e \<and> is_LoginError e")
    case False
    with assms a have "r = r1" "w' = w1"
      by (auto simp: WebAPIClient_login_def split: sum.splits)
    with ok1 tried1 show ?thesis by simp
  next
    case True
    then obtain e where e: "r1 = Inl e" "is_LoginError e" by blast
    obtain r2 w2 where c: "CookiesClient_login svc w1 = (r2, w2)"
      by (cases "CookiesClient_login svc w1")
    note ok2 = CookiesClient_login_ok(1) [OF c]
    note tried2 = CookiesClient_login_ok(2) [OF c]
    from assms a e c have w': "w' = w2" and r: "isl r = isl r2"
      by (auto simp: WebAPIClient_login_def split: sum.splits if_splits)
    from ok2 have ok2': "run_ok w1 r w2"
      using r by (simp add: run_ok_def)
    have "run_ok w r w2"
      using ok1 _ ok2' by (rule run_ok_after_failure) (simp add: e)
    moreover have "strategies_tried (new_events w w2)
           \<in> set [[Enter_AccountClient_login],
                   [Enter_AccountClient_login, Enter_local_cookies_login],
                   [Enter_AccountClient_login, Enter_local_cookies_login, Enter_user_cookies_login]]"
      using tried1 tried2 by (auto simp add: new_events_trans [OF ok1 ok2] strategies_tried_def)
    ultimately show ?thesis using w' by simp
  qed
  then show "run_ok w r w'"
    and "strategies_tried (new_events w w')
           \<in> set [[Enter_AccountClient_login],
                   [Enter_AccountClient_login, Enter_local_cookies_login],
                   [Enter_AccountClient_login, Enter_local_cookies_login, Enter_user_cookies_login]]"
    by simp_all
qed

lemma WebAPIClient_init_ok:
  assumes "WebAPIClient_init svc u p w = (r, w')"
  shows "trace w' = trace w @ new_events w w'"
    and "saves_verified None (new_events w w')"
    and "strategies_tried (new_events w w')
           \<in> set [[Enter_AccountClient_login],
                   [Enter_AccountClient_login, Enter_local_cookies_login],
                   [Enter_AccountClient_login, Enter_local_cookies_login, Enter_user_cookies_login]]"
    and "\<not> isl r \<Longrightarrow> Returned_check_is_logged True \<in> set (new_events w w')"
proof -
  let ?w0 = "BaseClient_init svc w"
  obtain r1 w1 where l: "WebAPIClient_login svc u p ?w0 = (r1, w1)"
    by (cases "WebAPIClient_login svc u p ?w0")
  note ok = WebAPIClient_login_ok [OF l]
  from assms l have w': "w' = w1" and r: "\<not> isl r \<Longrightarrow> \<not> isl r1"
    by (auto simp: WebAPIClient_init_def split: sum.splits option.splits)
  have t0: "trace ?w0 = trace w"
    by (simp add: BaseClient_init_def)
  have ne: "new_events ?w0 w1 = new_events w w'"
    by (simp add: new_events_def t0 w')
  show "trace w' = trace w @ new_events w w'"
    using run_okD(1) [OF ok(1)] by (simp add: ne t0 w')
  show "saves_verified None (new_events w w')"
    using run_okD(2) [OF ok(1)] by (simp add: ne)
  show "strategies_tried (new_events w w')
           \<in> set [[Enter_AccountClient_login],
                   [Enter_AccountClient_login, Enter_local_cookies_login],
                   [Enter_AccountClient_login, Enter_local_cookies_login, Enter_user_cookies_login]]"
    using ok(2) by (simp only: ne)
  show "Returned_check_is_logged True \<in> set (new_events w w')" if "\<not> isl r"
    using run_okD(4) [OF ok(1) r [OF that]] by (simp add: ne)
qed

subsection \<open>Example runs\<close>

lemmas example_defs =
  example_services_def example_world_def example_req_def example_pickle_load_def
  example_pickle_dump_def example_page_def example_services_status_down_def
  example_services_post_down_def example_req_status_down_def example_req_post_down_def

lemmas client_defs =
  WebAPIClient_init_def WebAPIClient_login_def CookiesClient_login_def AccountClient_login_def
  BaseClient_init_def get_postkey_def util_req_def check_is_logged_def save_cookies_def
  local_cookies_login_def local_cookies_try_def user_cookies_login_def change_to_new_cookies_def
  remove_old_cookies_def input_line_def log_event_def attempt_def
  login_check_url_def login_url_def post_key_url_def post_key_literal_def dquote_def newline_def
  ascii_strip_def ascii_lower_def ascii_lower_char_def ascii_isspace_def

lemma example_run_password:
  "WebAPIClient_init example_services ''user'' ''secret'' (example_world (Some ''GOOD'') []) =
     (Inr (), \<lparr>session_cookies = [(''PHPSESSID'', ''good'')], cookies_file = Some ''GOOD'',
               stdin = [], server = (),
               trace = [Enter_AccountClient_login, Enter_get_postkey,
                        Returned_check_is_logged True, Enter_save_cookies]\<rparr>)"
  by (simp add: client_defs example_defs Let_def)

lemma example_run_stored:
  "WebAPIClient_init example_services ''user'' ''wrong'' (example_world (Some ''GOOD'') [''y'']) =
     (Inr (), \<lparr>session_cookies = [(''PHPSESSID'', ''good'')], cookies_file = Some ''GOOD'',
               stdin = [''y''], server = (),
               trace = [Enter_AccountClient_login, Enter_get_postkey,
        Returned_check_is_logged False, Enter_CookiesClient_login,
        Enter_local_cookies_login, Returned_check_is_logged True]\<rparr>)"
  by (simp add: client_defs example_defs Let_def)

lemma example_run_interactive:
  "WebAPIClient_init example_services ''user'' ''wrong''
     (example_world (Some ''STALE'') ['' Yes '', ''a=1;bad'', ''maybe'', ''y'', ''PHPSESSID=good'']) =
     (Inr (), \<lparr>session_cookies = [(''PHPSESSID'', ''good'')], cookies_file = Some ''GOOD'',
               stdin = [], server = (),
               trace = [Enter_AccountClient_login, Enter_get_postkey,
        Returned_check_is_logged False, Enter_CookiesClient_login,
        Enter_local_cookies_login, Returned_check_is_logged False,
        Enter_user_cookies_login, Enter_change_to_new_cookies,
        Enter_change_to_new_cookies, Returned_check_is_logged True,
        Enter_save_cookies]\<rparr>)"
  by (simp add: client_defs example_defs Let_def)

lemma example_run_all_fail:
  "WebAPIClient_init example_services ''user'' ''wrong'' (example_world (Some ''junk'') [''n'']) =
     (Inl (LoginError ''Web client login failed''),
      \<lparr>session_cookies = [], cookies_file = None, stdin = [], server = (),
       trace = [Enter_AccountClient_login, Enter_get_postkey,
        Returned_check_is_logged False, Enter_CookiesClient_login,
        Enter_local_cookies_login, Enter_user_cookies_login]\<rparr>)"
  by (simp add: client_defs example_defs Let_def)

lemma example_run_empty_file:
  "WebAPIClient_init example_services ''user'' ''wrong'' (example_world (Some []) [''n'']) =
     (Inl (EOFError ''Ran out of input''),
      \<lparr>session_cookies = [], cookies_file = Some [], stdin = [''n''], server = (),
       trace = [Enter_AccountClient_login, Enter_get_postkey,
        Returned_check_is_logged False, Enter_CookiesClient_login,
        Enter_local_cookies_login]\<rparr>)"
  by (simp add: client_defs example_defs Let_def)

subsection \<open>The cascade\<close>

text \<open>
  Claim C3. When \<^verbatim>\<open>AccountClient._login\<close> succeeds, the login of the web client is
  that run and nothing more: \<^verbatim>\<open>CookiesClient._login\<close> is not entered and the only
  strategy tried is the first. When \<^verbatim>\<open>_local_cookies_login\<close> succeeds inside
  \<^verbatim>\<open>CookiesClient._login\<close>, \<^verbatim>\<open>_user_cookies_login\<close> is not entered. When the first
  strategy fails with \<^verbatim>\<open>LoginError\<close> and the second succeeds, the login succeeds
  and the third strategy is never tried.
\<close>

theorem first_success_short_circuits:
  "(fst (AccountClient_login svc u p w) = Inr () \<longrightarrow>
      WebAPIClient_login svc u p w = AccountClient_login svc u p w
      \<and> strategies_tried (new_events w (snd (WebAPIClient_login svc u p w))) = [Enter_AccountClient_login]
      \<and> Enter_CookiesClient_login \<notin> set (new_events w (snd (WebAPIClient_login svc u p w))))
   \<and> (fst (local_cookies_login svc (log_event Enter_CookiesClient_login w)) = Inr () \<longrightarrow>
      CookiesClient_login svc w = local_cookies_login svc (log_event Enter_CookiesClient_login w)
      \<and> strategies_tried (new_events w (snd (CookiesClient_login svc w))) = [Enter_local_cookies_login])
   \<and> (raised_LoginError (fst (AccountClient_login svc u p w))
       \<and> fst (local_cookies_login svc
                 (log_event Enter_CookiesClient_login (snd (AccountClient_login svc u p w)))) = Inr () \<longrightarrow>
      fst (WebAPIClient_login svc u p w) = Inr ()
      \<and> strategies_tried (new_events w (snd (WebAPIClient_login svc u p w)))
           = [Enter_AccountClient_login, Enter_local_cookies_login])"
proof -
  obtain r1 w1 where a: "AccountClient_login svc u p w = (r1, w1)"
    by (cases "AccountClient_login svc u p w")
  have 1: "WebAPIClient_login svc u p w = AccountClient_login svc u p w
      \<and> strategies_tried (new_events w (snd (WebAPIClient_login svc u p w))) = [Enter_AccountClient_login]
      \<and> Enter_CookiesClient_login \<notin> set (new_events w (snd (WebAPIClient_login svc u p w)))"
    if "fst (AccountClient_login svc u p w) = Inr ()"
  proof -
    from that a have eq: "WebAPIClient_login svc u p w = (r1, w1)"
      by (simp add: WebAPIClient_login_def)
    with a AccountClient_login_tried [OF a] show ?thesis by simp
  qed
  have 2: "CookiesClient_login svc w = local_cookies_login svc (log_event Enter_CookiesClient_login w)
      \<and> strategies_tried (new_events w (snd (CookiesClient_login svc w))) = [Enter_local_cookies_login]"
    if s: "fst (local_cookies_login svc (log_event Enter_CookiesClient_login w)) = Inr ()" for w
  proof -
    obtain r2 w2 where l: "local_cookies_login svc (log_event Enter_CookiesClient_login w) = (r2, w2)"
      by (cases "local_cookies_login svc (log_event Enter_CookiesClient_login w)")
    with s have eq: "CookiesClient_login svc w = (r2, w2)"
      by (simp add: CookiesClient_login_def)
    have "new_events w w2 = Enter_CookiesClient_login # new_events (log_event Enter_CookiesClient_login w) w2"
      using local_cookies_login_ok [OF l] by (rule new_events_log_event)
    with local_cookies_login_tried [OF l] eq l show ?thesis
      by (simp add: strategies_tried_def is_strategy_entry_def)
  qed
  have 3: "fst (WebAPIClient_login svc u p w) = Inr ()
      \<and> strategies_tried (new_events w (snd (WebAPIClient_login svc u p w)))
           = [Enter_AccountClient_login, Enter_local_cookies_login]"
    if f: "raised_LoginError (fst (AccountClient_login svc u p w))"
      and s: "fst (local_cookies_login svc
                 (log_event Enter_CookiesClient_login (snd (AccountClient_login svc u p w)))) = Inr ()"
  proof -
    from f a obtain e where e: "r1 = Inl e" "is_LoginError e"
      by (auto simp: raised_LoginError_def split: sum.splits)
    obtain r2 w2 where c: "CookiesClient_login svc w1 = (r2, w2)"
      by (cases "CookiesClient_login svc w1")
    from s a have s1: "fst (local_cookies_login svc (log_event Enter_CookiesClient_login w1)) = Inr ()"
      by simp
    from 2 [OF s1] c have r2: "r2 = Inr ()"
      and t2: "strategies_tried (new_events w1 w2) = [Enter_local_cookies_login]"
      using s1 by (auto dest: arg_cong [where f = fst])
    from a e c r2 have eq: "WebAPIClient_login svc u p w = (Inr (), w2)"
      by (simp add: WebAPIClient_login_def)
    have "new_events w w2 = new_events w w1 @ new_events w1 w2"
      using AccountClient_login_ok [OF a] CookiesClient_login_ok(1) [OF c] by (rule new_events_trans)
    with AccountClient_login_tried(1) [OF a] t2 eq show ?thesis
      by (simp add: strategies_tried_def)
  qed
  from 1 2 [of w] 3 show ?thesis by blast
qed

theorem first_success_short_circuits_witness:
  "fst (AccountClient_login example_services ''user'' ''secret'' (example_world (Some ''GOOD'') [''y''])) = Inr ()
   \<and> trace (snd (WebAPIClient_login example_services ''user'' ''secret'' (example_world (Some ''GOOD'') [''y''])))
       = [Enter_AccountClient_login, Enter_get_postkey, Returned_check_is_logged True, Enter_save_cookies]
   \<and> fst (local_cookies_login example_services
            (log_event Enter_CookiesClient_login (example_world (Some ''GOOD'') [''y'']))) = Inr ()
   \<and> trace (snd (CookiesClient_login example_services (example_world (Some ''GOOD'') [''y''])))
       = [Enter_CookiesClient_login, Enter_local_cookies_login, Returned_check_is_logged True]
   \<and> raised_LoginError (fst (AccountClient_login example_services ''user'' ''wrong''
                               (example_world (Some ''GOOD'') [''y''])))
   \<and> fst (local_cookies_login example_services
            (log_event Enter_CookiesClient_login
               (snd (AccountClient_login example_services ''user'' ''wrong''
                       (example_world (Some ''GOOD'') [''y'']))))) = Inr ()
   \<and> fst (WebAPIClient_login example_services ''user'' ''wrong'' (example_world (Some ''GOOD'') [''y''])) = Inr ()
   \<and> stdin (snd (WebAPIClient_login example_services ''user'' ''wrong'' (example_world (Some ''GOOD'') [''y'']))) = [''y'']"
proof -
  have a: "AccountClient_login example_services ''user'' ''secret'' (example_world (Some ''GOOD'') [''y'']) =
      (Inr (), \<lparr>session_cookies = [(''old'', ''x''), (''PHPSESSID'', ''good'')], cookies_file = Some ''GOOD'',
               stdin = [''y''], server = (),
               trace = [Enter_AccountClient_login, Enter_get_postkey,
                        Returned_check_is_logged True, Enter_save_cookies]\<rparr>)"
    by (simp add: client_defs example_defs Let_def)
  have l: "local_cookies_login example_services
            (log_event Enter_CookiesClient_login (example_world (Some ''GOOD'') [''y''])) =
      (Inr (), \<lparr>session_cookies = [(''PHPSESSID'', ''good'')], cookies_file = Some ''GOOD'',
               stdin = [''y''], server = (),
               trace = [Enter_CookiesClient_login, Enter_local_cookies_login,
                        Returned_check_is_logged True]\<rparr>)"
    by (simp add: client_defs example_defs Let_def)
  have f: "AccountClient_login example_services ''user'' ''wrong'' (example_world (Some ''GOOD'') [''y'']) =
      (Inl (LoginError ''Login Request is not accepted''),
       \<lparr>session_cookies = [(''old'', ''x'')], cookies_file = Some ''GOOD'',
               stdin = [''y''], server = (),
               trace = [Enter_AccountClient_login, Enter_get_postkey,
                        Returned_check_is_logged False]\<rparr>)"
    by (simp add: client_defs example_defs Let_def)
  have l2: "local_cookies_login example_services
            (log_event Enter_CookiesClient_login
               (snd (AccountClient_login example_services ''user'' ''wrong''
                       (example_world (Some ''GOOD'') [''y''])))) =
      (Inr (), \<lparr>session_cookies = [(''PHPSESSID'', ''good'')], cookies_file = Some ''GOOD'',
               stdin = [''y''], server = (),
               trace = [Enter_AccountClient_login, Enter_get_postkey, Returned_check_is_logged False,
                        Enter_CookiesClient_login, Enter_local_cookies_login,
                        Returned_check_is_logged True]\<rparr>)"
    unfolding f by (simp add: client_defs example_defs Let_def)
  have s: "stdin (snd (WebAPIClient_login example_services ''user'' ''wrong'' (example_world (Some ''GOOD'') [''y'']))) = [''y'']"
    by (simp add: client_defs example_defs Let_def)
  from first_success_short_circuits
         [of example_services "''user''" "''secret''" "example_world (Some ''GOOD'') [''y'']"]
       first_success_short_circuits
         [of example_services "''user''" "''wrong''" "example_world (Some ''GOOD'') [''y'']"]
       a l f l2 s
  show ?thesis by (simp add: raised_LoginError_def)
qed

lemma local_cookies_login_corrupted:
  assumes "cookies_file w = Some file_data" and "pickle_load svc file_data = Inl e"
    and "is_UnpicklingError e"
  shows "local_cookies_login svc w =
           (Inl (LoginError ''Login with cookies failed''),
            (log_event Enter_local_cookies_login w)\<lparr>cookies_file := None\<rparr>)"
  using assms by (simp add: local_cookies_login_def local_cookies_try_def Let_def log_event_def)

text \<open>
  Claim C5. The handler of \<^verbatim>\<open>_local_cookies_login\<close> catches
  \<^verbatim>\<open>pickle.UnpicklingError\<close> only. When \<^verbatim>\<open>pickle.load\<close> fails with any other exception
  (\<^verbatim>\<open>EOFError\<close> for an empty file, for one), that exception leaves the method as it is,
  it is not the \<^verbatim>\<open>LoginError\<close> of the strategy, and the file is still there.
\<close>

theorem local_cookies_login_uncaught:
  assumes "cookies_file w = Some file_data" and "pickle_load svc file_data = Inl e"
    and "\<not> is_UnpicklingError e"
  shows "local_cookies_login svc w = (Inl e, log_event Enter_local_cookies_login w)
         \<and> cookies_file (snd (local_cookies_login svc w)) = Some file_data"
  using assms by (simp add: local_cookies_login_def local_cookies_try_def Let_def log_event_def)

theorem local_cookies_login_uncaught_witness:
  "cookies_file (example_world (Some []) []) = Some []
   \<and> pickle_load example_services [] = Inl (EOFError ''Ran out of input'')
   \<and> \<not> is_UnpicklingError (EOFError ''Ran out of input'')
   \<and> fst (local_cookies_login example_services (example_world (Some []) [])) = Inl (EOFError ''Ran out of input'')
   \<and> \<not> is_LoginError (EOFError ''Ran out of input'')
   \<and> cookies_file (snd (local_cookies_login example_services (example_world (Some []) []))) = Some []"
proof -
  have c: "cookies_file (example_world (Some []) []) = Some []"
    by (simp add: example_world_def)
  have p: "pickle_load example_services [] = Inl (EOFError ''Ran out of input'')"
    by (simp add: example_services_def example_pickle_load_def)
  have n: "\<not> is_UnpicklingError (EOFError ''Ran out of input'')" by simp
  from local_cookies_login_uncaught [OF c p n] c p show ?thesis
    by (simp add: log_event_def)
qed

text \<open>
  Claim C6. In the events of every run of every strategy and of
  \<^verbatim>\<open>WebAPIClient.__init__\<close>, each entry of \<^verbatim>\<open>_save_cookies\<close> comes directly after
  \<^verbatim>\<open>_check_is_logged\<close> has returned true; a run that succeeds contains a check that
  returned true; and a login that never enters \<^verbatim>\<open>_save_cookies\<close> leaves the cookies
  file as it was or removed.
\<close>

theorem save_only_after_verification:
  "saves_verified None (new_events w (snd (AccountClient_login svc u p w)))
   \<and> saves_verified None (new_events w (snd (local_cookies_login svc w)))
   \<and> saves_verified None (new_events w (snd (user_cookies_login svc w)))
   \<and> saves_verified None (new_events w (snd (WebAPIClient_init svc u p w)))
   \<and> (fst (AccountClient_login svc u p w) = Inr () \<longrightarrow>
        Returned_check_is_logged True \<in> set (new_events w (snd (AccountClient_login svc u p w))))
   \<and> (fst (local_cookies_login svc w) = Inr () \<longrightarrow>
        Returned_check_is_logged True \<in> set (new_events w (snd (local_cookies_login svc w))))
   \<and> (fst (user_cookies_login svc w) = Inr () \<longrightarrow>
        Returned_check_is_logged True \<in> set (new_events w (snd (user_cookies_login svc w))))
   \<and> (fst (WebAPIClient_init svc u p w) = Inr () \<longrightarrow>
        Returned_check_is_logged True \<in> set (new_events w (snd (WebAPIClient_init svc u p w))))
   \<and> (Enter_save_cookies \<notin> set (new_events w (snd (WebAPIClient_login svc u p w))) \<longrightarrow>
        cookies_file (snd (WebAPIClient_login svc u p w)) = cookies_file w
        \<or> cookies_file (snd (WebAPIClient_login svc u p w)) = None)"
proof -
  obtain ra wa where a: "AccountClient_login svc u p w = (ra, wa)"
    by (cases "AccountClient_login svc u p w")
  obtain rl wl where l: "local_cookies_login svc w = (rl, wl)"
    by (cases "local_cookies_login svc w")
  obtain ru wu where i: "user_cookies_login svc w = (ru, wu)"
    by (cases "user_cookies_login svc w")
  obtain rw ww where c: "WebAPIClient_login svc u p w = (rw, ww)"
    by (cases "WebAPIClient_login svc u p w")
  obtain ri wi where n: "WebAPIClient_init svc u p w = (ri, wi)"
    by (cases "WebAPIClient_init svc u p w")
  note oa = AccountClient_login_ok [OF a]
  note ol = local_cookies_login_ok [OF l]
  note ou = user_cookies_login_ok(1) [OF i]
  note oc = WebAPIClient_login_ok(1) [OF c]
  note oi = WebAPIClient_init_ok [OF n]
  have "saves_verified None (new_events w wa)" by (rule run_okD(2) [OF oa])
  moreover have "saves_verified None (new_events w wl)" by (rule run_okD(2) [OF ol])
  moreover have "saves_verified None (new_events w wu)" by (rule run_okD(2) [OF ou])
  moreover have "saves_verified None (new_events w wi)" by (rule oi(2))
  moreover have "Returned_check_is_logged True \<in> set (new_events w wa)" if "ra = Inr ()"
    using run_okD(4) [OF oa] that by simp
  moreover have "Returned_check_is_logged True \<in> set (new_events w wl)" if "rl = Inr ()"
    using run_okD(4) [OF ol] that by simp
  moreover have "Returned_check_is_logged True \<in> set (new_events w wu)" if "ru = Inr ()"
    using run_okD(4) [OF ou] that by simp
  moreover have "Returned_check_is_logged True \<in> set (new_events w wi)" if "ri = Inr ()"
    using oi(4) that by simp
  moreover have "cookies_file ww = cookies_file w \<or> cookies_file ww = None"
    if "Enter_save_cookies \<notin> set (new_events w ww)"
    using run_okD(5) [OF oc that] .
  ultimately show ?thesis
    by (simp add: a l i c n)
qed

theorem save_only_after_verification_witness:
  "new_events (example_world (Some ''STALE'') ['' Yes '', ''a=1;bad'', ''maybe'', ''y'', ''PHPSESSID=good''])
     (snd (WebAPIClient_init example_services ''user'' ''wrong''
        (example_world (Some ''STALE'') ['' Yes '', ''a=1;bad'', ''maybe'', ''y'', ''PHPSESSID=good''])))
     = [Enter_AccountClient_login, Enter_get_postkey,
        Returned_check_is_logged False, Enter_CookiesClient_login,
        Enter_local_cookies_login, Returned_check_is_logged False,
        Enter_user_cookies_login, Enter_change_to_new_cookies,
        Enter_change_to_new_cookies, Returned_check_is_logged True,
        Enter_save_cookies]
   \<and> saves_verified None
       (new_events (example_world (Some ''STALE'') ['' Yes '', ''a=1;bad'', ''maybe'', ''y'', ''PHPSESSID=good''])
         (snd (WebAPIClient_init example_services ''user'' ''wrong''
            (example_world (Some ''STALE'') ['' Yes '', ''a=1;bad'', ''maybe'', ''y'', ''PHPSESSID=good'']))))
   \<and> fst (WebAPIClient_init example_services ''user'' ''wrong''
            (example_world (Some ''STALE'') ['' Yes '', ''a=1;bad'', ''maybe'', ''y'', ''PHPSESSID=good''])) = Inr ()
   \<and> Enter_save_cookies \<notin> set (new_events (example_world (Some ''junk'') [''n''])
        (snd (WebAPIClient_login example_services ''user'' ''wrong'' (example_world (Some ''junk'') [''n'']))))
   \<and> cookies_file (snd (WebAPIClient_login example_services ''user'' ''wrong''
                          (example_world (Some ''junk'') [''n'']))) = None
   \<and> fst (AccountClient_login example_services ''user'' ''secret'' (example_world None [])) = Inr ()
   \<and> Returned_check_is_logged True
         \<in> set (new_events (example_world None [])
                  (snd (AccountClient_login example_services ''user'' ''secret'' (example_world None []))))
   \<and> fst (local_cookies_login example_services (example_world (Some ''GOOD'') [])) = Inr ()
   \<and> Returned_check_is_logged True
         \<in> set (new_events (example_world (Some ''GOOD'') [])
                  (snd (local_cookies_login example_services (example_world (Some ''GOOD'') []))))
   \<and> fst (user_cookies_login example_services (example_world None [''y'', ''PHPSESSID=good''])) = Inr ()
   \<and> Returned_check_is_logged True
         \<in> set (new_events (example_world None [''y'', ''PHPSESSID=good''])
                  (snd (user_cookies_login example_services (example_world None [''y'', ''PHPSESSID=good'']))))"
proof -
  let ?w = "example_world (Some ''STALE'') ['' Yes '', ''a=1;bad'', ''maybe'', ''y'', ''PHPSESSID=good'']"
  let ?v = "example_world (Some ''junk'') [''n'']"
  have run: "WebAPIClient_init example_services ''user'' ''wrong'' ?w =
     (Inr (), \<lparr>session_cookies = [(''PHPSESSID'', ''good'')], cookies_file = Some ''GOOD'',
               stdin = [], server = (),
               trace = [Enter_AccountClient_login, Enter_get_postkey,
        Returned_check_is_logged False, Enter_CookiesClient_login,
        Enter_local_cookies_login, Returned_check_is_logged False,
        Enter_user_cookies_login, Enter_change_to_new_cookies,
        Enter_change_to_new_cookies, Returned_check_is_logged True,
        Enter_save_cookies]\<rparr>)"
    by (simp add: client_defs example_defs Let_def)
  have t: "trace ?w = []" "trace ?v = []"
    by (simp_all add: example_world_def)
  have fail: "WebAPIClient_login example_services ''user'' ''wrong'' ?v =
     (Inl (LoginError ''Web client login failed''),
      \<lparr>session_cookies = [(''old'', ''x'')], cookies_file = None, stdin = [], server = (),
       trace = [Enter_AccountClient_login, Enter_get_postkey,
        Returned_check_is_logged False, Enter_CookiesClient_login,
        Enter_local_cookies_login, Enter_user_cookies_login]\<rparr>)"
    by (simp add: client_defs example_defs Let_def)
  have sa: "fst (AccountClient_login example_services ''user'' ''secret'' (example_world None [])) = Inr ()"
    by (simp add: client_defs example_defs Let_def)
  have sl: "fst (local_cookies_login example_services (example_world (Some ''GOOD'') [])) = Inr ()"
    by (simp add: client_defs example_defs Let_def)
  have su: "fst (user_cookies_login example_services (example_world None [''y'', ''PHPSESSID=good''])) = Inr ()"
    by (simp add: client_defs example_defs Let_def)
  from save_only_after_verification [of ?w example_services "''user''" "''wrong''"]
       save_only_after_verification [of ?v example_services "''user''" "''wrong''"]
       save_only_after_verification [of "example_world None []" example_services "''user''" "''secret''"]
       save_only_after_verification [of "example_world (Some ''GOOD'') []" example_services]
       save_only_after_verification [of "example_world None [''y'', ''PHPSESSID=good'']" example_services]
  show ?thesis
    by (simp add: run fail sa sl su new_events_def t)
qed

lemma WebAPIClient_login_LoginError:
  assumes "fst (WebAPIClient_login svc u p w) = Inl (LoginError m)"
  shows "m = ''Web client login failed''"
proof -
  obtain r1 w1 where a: "AccountClient_login svc u p w = (r1, w1)"
    by (cases "AccountClient_login svc u p w")
  obtain r2 w2 where c: "CookiesClient_login svc w1 = (r2, w2)"
    by (cases "CookiesClient_login svc w1")
  from assms a c show ?thesis
    by (auto simp: WebAPIClient_login_def split: sum.splits if_splits)
qed

text \<open>
  What the cascade does with \<^verbatim>\<open>LoginError\<close>. When the three strategies fail with
  \<^verbatim>\<open>LoginError\<close> one after the other, the login raises
  \<^verbatim>\<open>LoginError('Web client login failed')\<close> and has never entered \<^verbatim>\<open>_save_cookies\<close>.
  Every \<^verbatim>\<open>LoginError\<close> the login raises is this one, and an exception of another class
  that leaves the login is one that a strategy raised and the login did not catch. A
  failed login leaves \<^verbatim>\<open>__init__\<close> unchanged, and any other \<^verbatim>\<open>LoginError\<close> leaving
  \<^verbatim>\<open>__init__\<close> would be one raised by \<^verbatim>\<open>DefaultAPIClient.__init__\<close>.
\<close>

lemma cascade_of_LoginErrors:
  "(raised_LoginError (fst (AccountClient_login svc u p w))
    \<and> raised_LoginError (fst (local_cookies_login svc
          (log_event Enter_CookiesClient_login (snd (AccountClient_login svc u p w)))))
    \<and> raised_LoginError (fst (user_cookies_login svc (snd (local_cookies_login svc
          (log_event Enter_CookiesClient_login (snd (AccountClient_login svc u p w)))))))
    \<longrightarrow> fst (WebAPIClient_login svc u p w) = Inl (LoginError ''Web client login failed'')
        \<and> Enter_save_cookies \<notin> set (new_events w (snd (WebAPIClient_login svc u p w))))
   \<and> (fst (WebAPIClient_login svc u p w) = Inl (LoginError m) \<longrightarrow> m = ''Web client login failed'')
   \<and> (fst (WebAPIClient_login svc u p w) = Inl e \<and> \<not> is_LoginError e \<longrightarrow>
        fst (AccountClient_login svc u p w) = Inl e
        \<or> fst (CookiesClient_login svc (snd (AccountClient_login svc u p w))) = Inl e)
   \<and> (isl (fst (WebAPIClient_login svc u p (BaseClient_init svc w))) \<longrightarrow>
        WebAPIClient_init svc u p w = WebAPIClient_login svc u p (BaseClient_init svc w))
   \<and> (fst (WebAPIClient_init svc u p w) = Inl (LoginError m) \<longrightarrow>
        m = ''Web client login failed''
        \<or> DefaultAPIClient_init svc (session_cookies (snd (WebAPIClient_init svc u p w)))
             = Some (LoginError m))"
proof -
  obtain r1 w1 where a: "AccountClient_login svc u p w = (r1, w1)"
    by (cases "AccountClient_login svc u p w")
  obtain r2 w2 where l: "local_cookies_login svc (log_event Enter_CookiesClient_login w1) = (r2, w2)"
    by (cases "local_cookies_login svc (log_event Enter_CookiesClient_login w1)")
  obtain r3 w3 where i: "user_cookies_login svc w2 = (r3, w3)"
    by (cases "user_cookies_login svc w2")
  obtain r4 w4 where c: "WebAPIClient_login svc u p w = (r4, w4)"
    by (cases "WebAPIClient_login svc u p w")
  have 1: "fst (WebAPIClient_login svc u p w) = Inl (LoginError ''Web client login failed'')
        \<and> Enter_save_cookies \<notin> set (new_events w (snd (WebAPIClient_login svc u p w)))"
    if "raised_LoginError r1" "raised_LoginError r2" "raised_LoginError r3"
  proof -
    from that a l i have "fst (WebAPIClient_login svc u p w) = Inl (LoginError ''Web client login failed'')"
      by (auto simp: WebAPIClient_login_def CookiesClient_login_def raised_LoginError_def
          split: sum.splits)
    moreover from this c have "isl r4" by simp
    from run_okD(3) [OF WebAPIClient_login_ok(1) [OF c] this] c
    have "Enter_save_cookies \<notin> set (new_events w (snd (WebAPIClient_login svc u p w)))" by simp
    ultimately show ?thesis ..
  qed
  have 3: "WebAPIClient_init svc u p w = WebAPIClient_login svc u p (BaseClient_init svc w)"
    if "isl (fst (WebAPIClient_login svc u p (BaseClient_init svc w)))"
    using that by (cases "WebAPIClient_login svc u p (BaseClient_init svc w)")
      (auto simp: WebAPIClient_init_def split: sum.splits)
  have 4: "m = ''Web client login failed''
        \<or> DefaultAPIClient_init svc (session_cookies (snd (WebAPIClient_init svc u p w)))
             = Some (LoginError m)"
    if f: "fst (WebAPIClient_init svc u p w) = Inl (LoginError m)"
  proof (cases "WebAPIClient_login svc u p (BaseClient_init svc w)")
    case (Pair r5 w5)
    show ?thesis
    proof (cases r5)
      case (Inl e)
      with Pair f have "fst (WebAPIClient_login svc u p (BaseClient_init svc w)) = Inl (LoginError m)"
        by (simp add: WebAPIClient_init_def)
      then show ?thesis by (simp add: WebAPIClient_login_LoginError)
    next
      case (Inr v)
      with Pair f show ?thesis
        by (auto simp: WebAPIClient_init_def split: option.splits)
    qed
  qed
  have 5: "fst (AccountClient_login svc u p w) = Inl e
        \<or> fst (CookiesClient_login svc (snd (AccountClient_login svc u p w))) = Inl e"
    if "fst (WebAPIClient_login svc u p w) = Inl e" and "\<not> is_LoginError e"
  proof -
    obtain r5 w5 where k: "CookiesClient_login svc w1 = (r5, w5)"
      by (cases "CookiesClient_login svc w1")
    from that a k show ?thesis
      by (auto simp: WebAPIClient_login_def split: sum.splits if_splits)
  qed
  have 2: "m = ''Web client login failed''" if "fst (WebAPIClient_login svc u p w) = Inl (LoginError m)"
    using that by (rule WebAPIClient_login_LoginError)
  from 1 a l i have c1: "raised_LoginError (fst (AccountClient_login svc u p w))
    \<and> raised_LoginError (fst (local_cookies_login svc
          (log_event Enter_CookiesClient_login (snd (AccountClient_login svc u p w)))))
    \<and> raised_LoginError (fst (user_cookies_login svc (snd (local_cookies_login svc
          (log_event Enter_CookiesClient_login (snd (AccountClient_login svc u p w)))))))
    \<longrightarrow> fst (WebAPIClient_login svc u p w) = Inl (LoginError ''Web client login failed'')
        \<and> Enter_save_cookies \<notin> set (new_events w (snd (WebAPIClient_login svc u p w)))"
    by simp
  from c1 2 5 3 4 show ?thesis by blast
qed

lemma cascade_of_LoginErrors_example:
  "raised_LoginError (fst (AccountClient_login example_services ''user'' ''wrong''
                            (example_world (Some ''junk'') [''n''])))
   \<and> raised_LoginError (fst (local_cookies_login example_services
          (log_event Enter_CookiesClient_login
             (snd (AccountClient_login example_services ''user'' ''wrong''
                     (example_world (Some ''junk'') [''n''])))))) 
   \<and> raised_LoginError (fst (user_cookies_login example_services (snd (local_cookies_login example_services
          (log_event Enter_CookiesClient_login
             (snd (AccountClient_login example_services ''user'' ''wrong''
                     (example_world (Some ''junk'') [''n''])))))))) 
   \<and> fst (WebAPIClient_login example_services ''user'' ''wrong'' (example_world (Some ''junk'') [''n'']))
       = Inl (LoginError ''Web client login failed'')
   \<and> isl (fst (WebAPIClient_login example_services ''user'' ''wrong''
                 (BaseClient_init example_services (example_world (Some ''junk'') [''n'']))))
   \<and> fst (WebAPIClient_init example_services ''user'' ''wrong'' (example_world (Some ''junk'') [''n'']))
       = Inl (LoginError ''Web client login failed'')
   \<and> cookies_file (snd (WebAPIClient_init example_services ''user'' ''wrong''
                          (example_world (Some ''junk'') [''n'']))) = None
   \<and> fst (WebAPIClient_login example_services ''user'' ''wrong'' (example_world (Some []) [''n'']))
       = Inl (EOFError ''Ran out of input'')
   \<and> \<not> is_LoginError (EOFError ''Ran out of input'')
   \<and> fst (CookiesClient_login example_services
            (snd (AccountClient_login example_services ''user'' ''wrong''
                    (example_world (Some []) [''n''])))) = Inl (EOFError ''Ran out of input'')"
proof -
  let ?v = "example_world (Some ''junk'') [''n'']"
  have a: "AccountClient_login example_services ''user'' ''wrong'' ?v =
      (Inl (LoginError ''Login Request is not accepted''),
       \<lparr>session_cookies = [(''old'', ''x'')], cookies_file = Some ''junk'',
               stdin = [''n''], server = (),
               trace = [Enter_AccountClient_login, Enter_get_postkey,
                        Returned_check_is_logged False]\<rparr>)"
    by (simp add: client_defs example_defs Let_def)
  have l: "local_cookies_login example_services
             (log_event Enter_CookiesClient_login (snd (AccountClient_login example_services ''user'' ''wrong'' ?v))) =
      (Inl (LoginError ''Login with cookies failed''),
       \<lparr>session_cookies = [(''old'', ''x'')], cookies_file = None,
               stdin = [''n''], server = (),
               trace = [Enter_AccountClient_login, Enter_get_postkey,
                        Returned_check_is_logged False, Enter_CookiesClient_login,
                        Enter_local_cookies_login]\<rparr>)"
    unfolding a by (simp add: client_defs example_defs Let_def)
  have i: "user_cookies_login example_services (snd (local_cookies_login example_services
             (log_event Enter_CookiesClient_login (snd (AccountClient_login example_services ''user'' ''wrong'' ?v))))) =
      (Inl (LoginError ''Failed login with user cookies''),
       \<lparr>session_cookies = [(''old'', ''x'')], cookies_file = None,
               stdin = [], server = (),
               trace = [Enter_AccountClient_login, Enter_get_postkey,
                        Returned_check_is_logged False, Enter_CookiesClient_login,
                        Enter_local_cookies_login, Enter_user_cookies_login]\<rparr>)"
    unfolding l by (simp add: client_defs example_defs Let_def)
  have run: "WebAPIClient_init example_services ''user'' ''wrong'' ?v =
     (Inl (LoginError ''Web client login failed''),
      \<lparr>session_cookies = [], cookies_file = None, stdin = [], server = (),
       trace = [Enter_AccountClient_login, Enter_get_postkey,
        Returned_check_is_logged False, Enter_CookiesClient_login,
        Enter_local_cookies_login, Enter_user_cookies_login]\<rparr>)"
    by (simp add: client_defs example_defs Let_def)
  have b: "WebAPIClient_login example_services ''user'' ''wrong'' (BaseClient_init example_services ?v) =
     (Inl (LoginError ''Web client login failed''),
      \<lparr>session_cookies = [], cookies_file = None, stdin = [], server = (),
       trace = [Enter_AccountClient_login, Enter_get_postkey,
        Returned_check_is_logged False, Enter_CookiesClient_login,
        Enter_local_cookies_login, Enter_user_cookies_login]\<rparr>)"
    by (simp add: client_defs example_defs Let_def)
  have c: "WebAPIClient_login example_services ''user'' ''wrong'' ?v =
     (Inl (LoginError ''Web client login failed''),
      \<lparr>session_cookies = [(''old'', ''x'')], cookies_file = None, stdin = [], server = (),
       trace = [Enter_AccountClient_login, Enter_get_postkey,
        Returned_check_is_logged False, Enter_CookiesClient_login,
        Enter_local_cookies_login, Enter_user_cookies_login]\<rparr>)"
    by (simp add: client_defs example_defs Let_def)
  have e1: "fst (WebAPIClient_login example_services ''user'' ''wrong'' (example_world (Some []) [''n'']))
       = Inl (EOFError ''Ran out of input'')"
    by (simp add: client_defs example_defs Let_def)
  have e2: "fst (CookiesClient_login example_services
            (snd (AccountClient_login example_services ''user'' ''wrong''
                    (example_world (Some []) [''n''])))) = Inl (EOFError ''Ran out of input'')"
    by (simp add: client_defs example_defs Let_def)
  from cascade_of_LoginErrors [where svc = example_services and u = "''user''" and p = "''wrong''"
         and w = ?v and m = "''Web client login failed''"]
       cascade_of_LoginErrors [where svc = example_services and u = "''user''" and p = "''wrong''"
         and w = "example_world (Some []) [''n'']" and e = "EOFError ''Ran out of input''"]
       e1 e2
  show ?thesis
    by (simp add: a l [unfolded a snd_conv] i [unfolded l snd_conv, unfolded a snd_conv]
        run b c raised_LoginError_def)
qed

text \<open>
  Claim C7. A strategy can fail with an exception that is not \<^verbatim>\<open>LoginError\<close>, and the
  login then raises that exception and not its own \<^verbatim>\<open>LoginError\<close>: when
  \<^verbatim>\<open>AccountClient._login\<close> raises it, no further strategy is tried; when
  \<^verbatim>\<open>CookiesClient._login\<close> raises it after the first strategy has failed, it leaves the
  login as it is. \<^verbatim>\<open>AccountClient._login\<close> raises whatever \<^verbatim>\<open>_check_is_logged\<close> raises,
  a \<^verbatim>\<open>ReqException\<close> of the status request included, whereas the \<^verbatim>\<open>ReqException\<close> of
  the login request just before it is turned into \<^verbatim>\<open>LoginError\<close>.
\<close>

theorem login_exception_escapes:
  "(fst (AccountClient_login svc u p w) = Inl e \<and> \<not> is_LoginError e \<longrightarrow>
      WebAPIClient_login svc u p w = AccountClient_login svc u p w)
   \<and> (raised_LoginError (fst (AccountClient_login svc u p w))
       \<and> fst (CookiesClient_login svc (snd (AccountClient_login svc u p w))) = Inl e
       \<and> \<not> is_LoginError e \<longrightarrow>
      WebAPIClient_login svc u p w = CookiesClient_login svc (snd (AccountClient_login svc u p w)))
   \<and> (fst (get_postkey svc (log_event Enter_AccountClient_login w)) = Inr k
       \<and> fst (util_req svc
                 (POST login_url [(''password'', p), (''pixiv_id'', u), (''post_key'', k)] [(''lang'', ''en'')])
                 (snd (get_postkey svc (log_event Enter_AccountClient_login w)))) = Inr r
       \<and> fst (check_is_logged svc
                 (snd (util_req svc
                   (POST login_url [(''password'', p), (''pixiv_id'', u), (''post_key'', k)] [(''lang'', ''en'')])
                   (snd (get_postkey svc (log_event Enter_AccountClient_login w)))))) = Inl e \<longrightarrow>
      fst (AccountClient_login svc u p w) = Inl e)
   \<and> (fst (get_postkey svc (log_event Enter_AccountClient_login w)) = Inr k
       \<and> fst (util_req svc
                 (POST login_url [(''password'', p), (''pixiv_id'', u), (''post_key'', k)] [(''lang'', ''en'')])
                 (snd (get_postkey svc (log_event Enter_AccountClient_login w)))) = Inl (ReqException m) \<longrightarrow>
      fst (AccountClient_login svc u p w) = Inl (LoginError (''Failed to send login request: '' @ m)))"
proof -
  obtain r1 w1 where a: "AccountClient_login svc u p w = (r1, w1)"
    by (cases "AccountClient_login svc u p w")
  obtain r2 w2 where c: "CookiesClient_login svc w1 = (r2, w2)"
    by (cases "CookiesClient_login svc w1")
  obtain g wg where g: "get_postkey svc (log_event Enter_AccountClient_login w) = (g, wg)"
    by (cases "get_postkey svc (log_event Enter_AccountClient_login w)")
  have 1: "WebAPIClient_login svc u p w = AccountClient_login svc u p w"
    if "fst (AccountClient_login svc u p w) = Inl e" "\<not> is_LoginError e"
    using that a by (simp add: WebAPIClient_login_def)
  have 2: "WebAPIClient_login svc u p w = CookiesClient_login svc (snd (AccountClient_login svc u p w))"
    if "raised_LoginError (fst (AccountClient_login svc u p w))"
      "fst (CookiesClient_login svc (snd (AccountClient_login svc u p w))) = Inl e" "\<not> is_LoginError e"
    using that a c by (auto simp: WebAPIClient_login_def raised_LoginError_def split: sum.splits)
  have 3: "fst (AccountClient_login svc u p w) = Inl e"
    if "fst (get_postkey svc (log_event Enter_AccountClient_login w)) = Inr k"
      "fst (util_req svc
                 (POST login_url [(''password'', p), (''pixiv_id'', u), (''post_key'', k)] [(''lang'', ''en'')])
                 (snd (get_postkey svc (log_event Enter_AccountClient_login w)))) = Inr r"
      "fst (check_is_logged svc
                 (snd (util_req svc
                   (POST login_url [(''password'', p), (''pixiv_id'', u), (''post_key'', k)] [(''lang'', ''en'')])
                   (snd (get_postkey svc (log_event Enter_AccountClient_login w)))))) = Inl e"
  proof -
    obtain q wq where q: "util_req svc
        (POST login_url [(''password'', p), (''pixiv_id'', u), (''post_key'', k)] [(''lang'', ''en'')]) wg = (q, wq)"
      by (cases "util_req svc
        (POST login_url [(''password'', p), (''pixiv_id'', u), (''post_key'', k)] [(''lang'', ''en'')]) wg")
    obtain h wh where h: "check_is_logged svc wq = (h, wh)"
      by (cases "check_is_logged svc wq")
    from that g q h show ?thesis
      by (simp add: AccountClient_login_def Let_def)
  qed
  have 4: "fst (AccountClient_login svc u p w) = Inl (LoginError (''Failed to send login request: '' @ m))"
    if "fst (get_postkey svc (log_event Enter_AccountClient_login w)) = Inr k"
      "fst (util_req svc
                 (POST login_url [(''password'', p), (''pixiv_id'', u), (''post_key'', k)] [(''lang'', ''en'')])
                 (snd (get_postkey svc (log_event Enter_AccountClient_login w)))) = Inl (ReqException m)"
  proof -
    obtain q wq where q: "util_req svc
        (POST login_url [(''password'', p), (''pixiv_id'', u), (''post_key'', k)] [(''lang'', ''en'')]) wg = (q, wq)"
      by (cases "util_req svc
        (POST login_url [(''password'', p), (''pixiv_id'', u), (''post_key'', k)] [(''lang'', ''en'')]) wg")
    from that g q show ?thesis
      by (simp add: AccountClient_login_def Let_def)
  qed
  show ?thesis
  proof (intro conjI impI)
    show "WebAPIClient_login svc u p w = AccountClient_login svc u p w"
      if "fst (AccountClient_login svc u p w) = Inl e \<and> \<not> is_LoginError e"
      using that by (intro 1) simp_all
    show "WebAPIClient_login svc u p w = CookiesClient_login svc (snd (AccountClient_login svc u p w))"
      if "raised_LoginError (fst (AccountClient_login svc u p w))
       \<and> fst (CookiesClient_login svc (snd (AccountClient_login svc u p w))) = Inl e
       \<and> \<not> is_LoginError e"
      using that by (intro 2) simp_all
    show "fst (AccountClient_login svc u p w) = Inl e"
      if "fst (get_postkey svc (log_event Enter_AccountClient_login w)) = Inr k
       \<and> fst (util_req svc
                 (POST login_url [(''password'', p), (''pixiv_id'', u), (''post_key'', k)] [(''lang'', ''en'')])
                 (snd (get_postkey svc (log_event Enter_AccountClient_login w)))) = Inr r
       \<and> fst (check_is_logged svc
                 (snd (util_req svc
                   (POST login_url [(''password'', p), (''pixiv_id'', u), (''post_key'', k)] [(''lang'', ''en'')])
                   (snd (get_postkey svc (log_event Enter_AccountClient_login w)))))) = Inl e"
      using that by (intro 3) simp_all
    show "fst (AccountClient_login svc u p w) = Inl (LoginError (''Failed to send login request: '' @ m))"
      if "fst (get_postkey svc (log_event Enter_AccountClient_login w)) = Inr k
       \<and> fst (util_req svc
                 (POST login_url [(''password'', p), (''pixiv_id'', u), (''post_key'', k)] [(''lang'', ''en'')])
                 (snd (get_postkey svc (log_event Enter_AccountClient_login w)))) = Inl (ReqException m)"
      using that by (intro 4) simp_all
  qed
qed

theorem login_exception_escapes_witness:
  "fst (AccountClient_login example_services_status_down ''user'' ''secret'' (example_world (Some ''GOOD'') []))
     = Inl (ReqException ''connection failed'')
   \<and> \<not> is_LoginError (ReqException ''connection failed'')
   \<and> WebAPIClient_init example_services_status_down ''user'' ''secret'' (example_world (Some ''GOOD'') []) =
       (Inl (ReqException ''connection failed''),
        \<lparr>session_cookies = [(''PHPSESSID'', ''good'')], cookies_file = Some ''GOOD'', stdin = [],
         server = (), trace = [Enter_AccountClient_login, Enter_get_postkey]\<rparr>)
   \<and> raised_LoginError (fst (AccountClient_login example_services ''user'' ''wrong'' (example_world None [])))
   \<and> fst (CookiesClient_login example_services
            (snd (AccountClient_login example_services ''user'' ''wrong'' (example_world None []))))
       = Inl (EOFError ''EOF when reading a line'')
   \<and> \<not> is_LoginError (EOFError ''EOF when reading a line'')
   \<and> fst (WebAPIClient_init example_services ''user'' ''wrong'' (example_world None []))
       = Inl (EOFError ''EOF when reading a line'')
   \<and> fst (AccountClient_login example_services_post_down ''user'' ''secret'' (example_world (Some ''GOOD'') []))
       = Inl (LoginError ''Failed to send login request: connection failed'')"
proof -
  let ?w = "example_world (Some ''GOOD'') []"
  let ?v = "example_world None []"
  let ?d = example_services_status_down
  let ?r = "\<lparr>body_text = [], json_is_logged_in = Inl (ValueError ''not json'')\<rparr>"
  have a: "fst (AccountClient_login ?d ''user'' ''secret'' ?w) = Inl (ReqException ''connection failed'')"
    by (simp add: client_defs example_defs Let_def)
  have i: "WebAPIClient_init ?d ''user'' ''secret'' ?w =
       (Inl (ReqException ''connection failed''),
        \<lparr>session_cookies = [(''PHPSESSID'', ''good'')], cookies_file = Some ''GOOD'', stdin = [],
         server = (), trace = [Enter_AccountClient_login, Enter_get_postkey]\<rparr>)"
    by (simp add: client_defs example_defs Let_def)
  have g: "fst (get_postkey ?d (log_event Enter_AccountClient_login ?w)) = Inr ''k1''"
    by (simp add: client_defs example_defs Let_def)
  have q: "fst (util_req ?d
                 (POST login_url [(''password'', ''secret''), (''pixiv_id'', ''user''), (''post_key'', ''k1'')]
                    [(''lang'', ''en'')])
                 (snd (get_postkey ?d (log_event Enter_AccountClient_login ?w)))) = Inr ?r"
    by (simp add: client_defs example_defs Let_def)
  have h: "fst (check_is_logged ?d
                 (snd (util_req ?d
                   (POST login_url [(''password'', ''secret''), (''pixiv_id'', ''user''), (''post_key'', ''k1'')]
                      [(''lang'', ''en'')])
                   (snd (get_postkey ?d (log_event Enter_AccountClient_login ?w))))))
             = Inl (ReqException ''connection failed'')"
    by (simp add: client_defs example_defs Let_def)
  have f: "raised_LoginError (fst (AccountClient_login example_services ''user'' ''wrong'' ?v))"
    by (simp add: client_defs example_defs Let_def raised_LoginError_def)
  have c: "fst (CookiesClient_login example_services
            (snd (AccountClient_login example_services ''user'' ''wrong'' ?v)))
       = Inl (EOFError ''EOF when reading a line'')"
    by (simp add: client_defs example_defs Let_def)
  have j: "fst (WebAPIClient_init example_services ''user'' ''wrong'' ?v)
       = Inl (EOFError ''EOF when reading a line'')"
    by (simp add: client_defs example_defs Let_def)
  have g': "fst (get_postkey example_services_post_down (log_event Enter_AccountClient_login ?w)) = Inr ''k1''"
    by (simp add: client_defs example_defs Let_def)
  have q': "fst (util_req example_services_post_down
                 (POST login_url [(''password'', ''secret''), (''pixiv_id'', ''user''), (''post_key'', ''k1'')]
                    [(''lang'', ''en'')])
                 (snd (get_postkey example_services_post_down (log_event Enter_AccountClient_login ?w))))
              = Inl (ReqException ''connection failed'')"
    by (simp add: client_defs example_defs Let_def)
  note t1 = login_exception_escapes [where svc = ?d and u = "''user''" and p = "''secret''" and w = ?w
      and e = "ReqException ''connection failed''" and k = "''k1''" and r = ?r]
  note t2 = login_exception_escapes [where svc = example_services and u = "''user''" and p = "''wrong''"
      and w = ?v and e = "EOFError ''EOF when reading a line''"]
  note t3 = login_exception_escapes [where svc = example_services_post_down and u = "''user''"
      and p = "''secret''" and w = ?w and k = "''k1''" and m = "''connection failed''"]
  from t1 g q h have a': "fst (AccountClient_login ?d ''user'' ''secret'' ?w) = Inl (ReqException ''connection failed'')"
    by simp
  from t1 a' have "WebAPIClient_login ?d ''user'' ''secret'' ?w = AccountClient_login ?d ''user'' ''secret'' ?w"
    by simp
  from t2 f c have "WebAPIClient_login example_services ''user'' ''wrong'' ?v
      = CookiesClient_login example_services (snd (AccountClient_login example_services ''user'' ''wrong'' ?v))"
    by simp
  from t3 g' q' have p: "fst (AccountClient_login example_services_post_down ''user'' ''secret'' ?w)
       = Inl (LoginError ''Failed to send login request: connection failed'')"
    by simp
  from a i f c j p show ?thesis
    by (intro conjI) simp_all
qed

text \<open>
  Claim C8, as the code has it. \<^verbatim>\<open>WebAPIClient.__init__\<close> takes a user name and a
  password and no list of strategies: in every run the strategies tried are a prefix of
  the fixed order direct credentials, stored cookies, interactive cookies.
\<close>

theorem strategy_order_is_fixed:
  "strategies_tried (new_events w (snd (WebAPIClient_init svc username password w)))
     \<in> set [[Enter_AccountClient_login],
             [Enter_AccountClient_login, Enter_local_cookies_login],
             [Enter_AccountClient_login, Enter_local_cookies_login, Enter_user_cookies_login]]"
proof (cases "WebAPIClient_init svc username password w")
  case (Pair r w')
  from WebAPIClient_init_ok(3) [OF Pair] show ?thesis
    by (simp only: Pair snd_conv)
qed

text \<open>
  With a valid cookies file and a valid password, a caller who asks the authenticator of
  the specification for the order stored session, direct credentials, interactive session
  has the stored session tried first; the code tries the direct credentials first.
\<close>

theorem strategy_order_counterexample:
  "strategies_tried (trace (snd (WebAPIClient_init example_services ''user'' ''secret''
                                   (example_world (Some ''GOOD'') []))))
     = [Enter_AccountClient_login]
   \<and> strategies_tried (trace (snd (spec_Authenticator_login example_services
                                     [StoredSession, DirectCredentials ''user'' ''secret'', InteractiveSession]
                                     (example_world (Some ''GOOD'') []))))
     = [Enter_local_cookies_login]
   \<and> strategies_tried (trace (snd (WebAPIClient_init example_services ''user'' ''secret''
                                   (example_world (Some ''GOOD'') []))))
     \<noteq> strategies_tried (trace (snd (spec_Authenticator_login example_services
                                     [StoredSession, DirectCredentials ''user'' ''secret'', InteractiveSession]
                                     (example_world (Some ''GOOD'') []))))"
proof -
  have 1: "strategies_tried (trace (snd (WebAPIClient_init example_services ''user'' ''secret''
                                   (example_world (Some ''GOOD'') [])))) = [Enter_AccountClient_login]"
    by (simp add: client_defs example_defs Let_def strategies_tried_def is_strategy_entry_def)
  have 2: "strategies_tried (trace (snd (spec_Authenticator_login example_services
                                     [StoredSession, DirectCredentials ''user'' ''secret'', InteractiveSession]
                                     (example_world (Some ''GOOD'') [])))) = [Enter_local_cookies_login]"
    by (simp add: client_defs example_defs Let_def strategies_tried_def is_strategy_entry_def)
  show ?thesis unfolding 1 2 by simp
qed

end
